theory Spec2Isabelle
  imports Complex_Main
begin

unbundle bit_operations_syntax

section \<open>Radiosity: the light-transport solver of drigil/Radiosity\<close>

text \<open>
  A shallow embedding of the solver code of \<^verbatim>\<open>cube.cpp\<close> (\<^verbatim>\<open>initLighting\<close>,
  \<^verbatim>\<open>iterateLighting\<close>, \<^verbatim>\<open>computeSpecularity\<close>, \<^verbatim>\<open>calcLight\<close> and the convergence loop
  of \<^verbatim>\<open>main\<close>), of the analytic transfer calculator of \<^verbatim>\<open>transfers.cpp\<close> and of the
  brightness normaliser of \<^verbatim>\<open>rendering.cpp\<close>.
\<close>

subsection \<open>The C++ type double\<close>

text \<open>
  A \<^verbatim>\<open>double\<close> is a finite number, one of the two infinities, or NaN. Arithmetic on
  the special values follows IEEE 754, which is what decides every division by zero of
  the program: \<^verbatim>\<open>x / 0.0\<close> is an infinity for \<^verbatim>\<open>x \<noteq> 0\<close> and NaN for \<^verbatim>\<open>0.0 / 0.0\<close>, every
  operation on NaN is NaN, and every comparison with NaN is false. The operators
  \<open>+\<close>, \<open>-\<close>, \<open>*\<close> and \<open>/\<close> of this type are exact on finite values (a real number);
  overflow and the sign of zero are not modelled. The rounding of the machine is the
  function \<open>rnd\<close> of the next subsection, and the brightness normaliser, whose result
  depends on it, is modelled with the rounded product and quotient. Every divisor of
  the modelled code is a square, a square root, a sum started at \<^verbatim>\<open>0.0\<close> or a running
  maximum started at \<^verbatim>\<open>0.0\<close>, none of which is the negative zero. The C++ type \<^verbatim>\<open>float\<close>
  of \<^verbatim>\<open>computeSpecularity\<close> is modelled by the same type.
\<close>

datatype double = Fin real | PInf | NInf | NaN

instantiation double :: "{comm_monoid_add, one, uminus, minus, times, inverse, ord}"
begin

definition zero_double :: double where
  "zero_double = Fin 0"

definition one_double :: double where
  "one_double = Fin 1"

fun plus_double :: "double \<Rightarrow> double \<Rightarrow> double" where
  "plus_double (Fin a) (Fin b) = Fin (a + b)"
| "plus_double (Fin a) PInf = PInf"
| "plus_double (Fin a) NInf = NInf"
| "plus_double PInf (Fin b) = PInf"
| "plus_double PInf PInf = PInf"
| "plus_double PInf NInf = NaN"
| "plus_double NInf (Fin b) = NInf"
| "plus_double NInf NInf = NInf"
| "plus_double NInf PInf = NaN"
| "plus_double NaN _ = NaN"
| "plus_double _ NaN = NaN"

fun uminus_double :: "double \<Rightarrow> double" where
  "uminus_double (Fin a) = Fin (- a)"
| "uminus_double PInf = NInf"
| "uminus_double NInf = PInf"
| "uminus_double NaN = NaN"

definition minus_double :: "double \<Rightarrow> double \<Rightarrow> double" where
  "minus_double a b = a + (- b)"

fun times_double :: "double \<Rightarrow> double \<Rightarrow> double" where
  "times_double (Fin a) (Fin b) = Fin (a * b)"
| "times_double (Fin a) PInf = (if a = 0 then NaN else if 0 < a then PInf else NInf)"
| "times_double (Fin a) NInf = (if a = 0 then NaN else if 0 < a then NInf else PInf)"
| "times_double PInf (Fin b) = (if b = 0 then NaN else if 0 < b then PInf else NInf)"
| "times_double NInf (Fin b) = (if b = 0 then NaN else if 0 < b then NInf else PInf)"
| "times_double PInf PInf = PInf"
| "times_double PInf NInf = NInf"
| "times_double NInf PInf = NInf"
| "times_double NInf NInf = PInf"
| "times_double NaN _ = NaN"
| "times_double _ NaN = NaN"

fun divide_double :: "double \<Rightarrow> double \<Rightarrow> double" where
  "divide_double (Fin a) (Fin b) =
     (if b = 0 then (if a = 0 then NaN else if 0 < a then PInf else NInf)
      else Fin (a / b))"
| "divide_double (Fin a) PInf = Fin 0"
| "divide_double (Fin a) NInf = Fin 0"
| "divide_double PInf (Fin b) = (if 0 \<le> b then PInf else NInf)"
| "divide_double NInf (Fin b) = (if 0 \<le> b then NInf else PInf)"
| "divide_double PInf PInf = NaN"
| "divide_double PInf NInf = NaN"
| "divide_double NInf PInf = NaN"
| "divide_double NInf NInf = NaN"
| "divide_double NaN _ = NaN"
| "divide_double _ NaN = NaN"

definition inverse_double :: "double \<Rightarrow> double" where
  "inverse_double a = divide (Fin 1) a"

fun less_double :: "double \<Rightarrow> double \<Rightarrow> bool" where
  "less_double (Fin a) (Fin b) = (a < b)"
| "less_double (Fin a) PInf = True"
| "less_double NInf (Fin b) = True"
| "less_double NInf PInf = True"
| "less_double _ _ = False"

fun less_eq_double :: "double \<Rightarrow> double \<Rightarrow> bool" where
  "less_eq_double (Fin a) (Fin b) = (a \<le> b)"
| "less_eq_double (Fin a) PInf = True"
| "less_eq_double NInf (Fin b) = True"
| "less_eq_double NInf NInf = True"
| "less_eq_double NInf PInf = True"
| "less_eq_double PInf PInf = True"
| "less_eq_double _ _ = False"

text \<open>
  Exact finite arithmetic makes addition, with the special values, associative and
  commutative, with \<open>Fin 0\<close> neutral: sums of doubles do not depend on their order.
\<close>

instance
  apply standard
  subgoal for x y z by (cases x; cases y; cases z) simp_all
  subgoal for x y by (cases x; cases y) simp_all
  subgoal for x by (cases x) (simp_all add: zero_double_def)
  done

end

text \<open>\<^verbatim>\<open>fabs\<close>, \<^verbatim>\<open>sqrt\<close> and \<^verbatim>\<open>std::pow\<close> with the exponent \<^verbatim>\<open>32.0f\<close> of the program.\<close>

fun fabs :: "double \<Rightarrow> double" where
  "fabs (Fin a) = Fin \<bar>a\<bar>"
| "fabs PInf = PInf"
| "fabs NInf = PInf"
| "fabs NaN = NaN"

fun dsqrt :: "double \<Rightarrow> double" where
  "dsqrt (Fin a) = (if a < 0 then NaN else Fin (sqrt a))"
| "dsqrt PInf = PInf"
| "dsqrt NInf = NaN"
| "dsqrt NaN = NaN"

fun std_pow :: "double \<Rightarrow> nat \<Rightarrow> double" where
  "std_pow (Fin a) k = Fin (a ^ k)"
| "std_pow PInf k = (if k = 0 then Fin 1 else PInf)"
| "std_pow NInf k = (if k = 0 then Fin 1 else if even k then PInf else NInf)"
| "std_pow NaN k = (if k = 0 then Fin 1 else NaN)"

text \<open>
  \<^verbatim>\<open>std::max(a, b)\<close> is \<^verbatim>\<open>(a < b) ? b : a\<close>: it returns its first argument when either
  is NaN. C's \<^verbatim>\<open>fmax\<close> treats a NaN argument as missing.
\<close>

definition std_max :: "double \<Rightarrow> double \<Rightarrow> double" where
  "std_max a b = (if a < b then b else a)"

definition fmax :: "double \<Rightarrow> double \<Rightarrow> double" where
  "fmax a b = (if a = NaN then b else if b = NaN then a else if a < b then b else a)"

definition M_PI :: double where
  "M_PI = Fin pi"

text \<open>\<^verbatim>\<open>std::isfinite\<close>, used to state which inputs keep a computation free of NaN.\<close>

fun isfinite :: "double \<Rightarrow> bool" where
  "isfinite (Fin a) = True"
| "isfinite PInf = False"
| "isfinite NInf = False"
| "isfinite NaN = False"

subsection \<open>Rounding to double precision\<close>

text \<open>
  The machine gives, for a product or a quotient of two finite doubles, the exact
  result rounded to the nearest number with 53 significant bits, a tie going to the
  even significand (IEEE 754 binary64, round to nearest even). \<open>binade x\<close> is the
  exponent \<open>e\<close> with \<open>2 ^ e \<le> \<bar>x\<bar> < 2 ^ (e + 1)\<close>, \<open>rne\<close> rounds a real number to the nearest
  integer, ties to even, and \<open>round64\<close> rounds to 53 significant bits; the range of
  the exponent is not bounded, so overflow and subnormal numbers are not modelled.
  \<open>rnd\<close> rounds a double, \<open>fl_times\<close> and \<open>fl_divide\<close> are the machine's \<^verbatim>\<open>*\<close> and \<^verbatim>\<open>/\<close>,
  and \<open>isdouble\<close> holds of the values the machine can represent.
\<close>

definition binade :: "real \<Rightarrow> int" where
  "binade x = \<lfloor>log 2 \<bar>x\<bar>\<rfloor>"

definition rne :: "real \<Rightarrow> int" where
  "rne m = (let f = \<lfloor>m\<rfloor>; d = m - of_int f
            in if d < 1 / 2 then f else if 1 / 2 < d then f + 1
               else if even f then f else f + 1)"

definition round64 :: "real \<Rightarrow> real" where
  "round64 x = (if x = 0 then 0
                else let u = 2 powr (of_int (binade x) - 52)
                     in of_int (rne (x / u)) * u)"

fun rnd :: "double \<Rightarrow> double" where
  "rnd (Fin x) = Fin (round64 x)"
| "rnd PInf = PInf"
| "rnd NInf = NInf"
| "rnd NaN = NaN"

definition fl_times :: "double \<Rightarrow> double \<Rightarrow> double" where
  "fl_times a b = rnd (a * b)"

definition fl_divide :: "double \<Rightarrow> double \<Rightarrow> double" where
  "fl_divide a b = rnd (a / b)"

definition isdouble :: "double \<Rightarrow> bool" where
  "isdouble a = (rnd a = a)"

subsection \<open>Colours, vertices, quads (geom.h)\<close>

text \<open>
  Modelled from the spec: \<^verbatim>\<open>geom.h\<close> and \<^verbatim>\<open>geom.cpp\<close>, which declare \<^verbatim>\<open>Colour\<close>,
  \<^verbatim>\<open>Vertex\<close> and \<^verbatim>\<open>Quad\<close>, are not among the sources. A colour is three channels
  \<^verbatim>\<open>r\<close>, \<^verbatim>\<open>g\<close>, \<^verbatim>\<open>b\<close> (here \<open>cr\<close>, \<open>cg\<close>, \<open>cb\<close>); the spec has colour sums and
  products component-wise per channel, and the sum of the solver presupposes
  that the default-constructed \<^verbatim>\<open>Colour()\<close> is black, which is \<open>0\<close> here.
  \<open>scaleC\<close> is \<^verbatim>\<open>Colour * double\<close>.
\<close>

datatype Colour = Colour (cr: double) (cg: double) (cb: double)

instantiation Colour :: "{comm_monoid_add, times}"
begin

definition zero_Colour :: Colour where
  "zero_Colour = Colour (Fin 0) (Fin 0) (Fin 0)"

definition plus_Colour :: "Colour \<Rightarrow> Colour \<Rightarrow> Colour" where
  "plus_Colour c d = Colour (cr c + cr d) (cg c + cg d) (cb c + cb d)"

definition times_Colour :: "Colour \<Rightarrow> Colour \<Rightarrow> Colour" where
  "times_Colour c d = Colour (cr c * cr d) (cg c * cg d) (cb c * cb d)"

instance
  apply standard
  subgoal by (simp add: plus_Colour_def add.assoc)
  subgoal by (simp add: plus_Colour_def add.commute)
  subgoal by (simp add: plus_Colour_def zero_Colour_def zero_double_def [symmetric])
  done

end

definition scaleC :: "Colour \<Rightarrow> double \<Rightarrow> Colour" where
  "scaleC c s = Colour (cr c * s) (cg c * s) (cb c * s)"

text \<open>
  Modelled from the spec: a vertex is a 3D point (\<^verbatim>\<open>x()\<close>, \<^verbatim>\<open>y()\<close>, \<^verbatim>\<open>z()\<close>, here
  \<open>vx\<close>, \<open>vy\<close>, \<open>vz\<close>) with the vector operations the callers name:
  difference, \<^verbatim>\<open>Vertex * double\<close> (\<open>scaleV\<close>), \<^verbatim>\<open>dot\<close>, \<^verbatim>\<open>len()\<close> and \<^verbatim>\<open>norm()\<close>
  (\<open>norm_v\<close>), the vector scaled by the inverse of its length.
\<close>

datatype Vertex = Vertex (vx: double) (vy: double) (vz: double)

instantiation Vertex :: minus
begin

definition minus_Vertex :: "Vertex \<Rightarrow> Vertex \<Rightarrow> Vertex" where
  "minus_Vertex u v = Vertex (vx u - vx v) (vy u - vy v) (vz u - vz v)"

instance ..

end

definition scaleV :: "Vertex \<Rightarrow> double \<Rightarrow> Vertex" where
  "scaleV v s = Vertex (vx v * s) (vy v * s) (vz v * s)"

definition dot :: "Vertex \<Rightarrow> Vertex \<Rightarrow> double" where
  "dot u v = vx u * vx v + vy u * vy v + vz u * vz v"

definition len :: "Vertex \<Rightarrow> double" where
  "len v = dsqrt (dot v v)"

definition norm_v :: "Vertex \<Rightarrow> Vertex" where
  "norm_v v = scaleV v (Fin 1 / len v)"

definition finiteV :: "Vertex \<Rightarrow> bool" where
  "finiteV v = (isfinite (vx v) \<and> isfinite (vy v) \<and> isfinite (vz v))"

text \<open>
  A quad has four vertex indices, its two colours and its two flags. A camera is an
  eye position, a look-at point and an up vector.
\<close>

record Quad =
  indices :: "nat list"
  isEmitter :: bool
  isSpecular :: bool
  materialColour :: Colour
  screenColour :: Colour

record Camera =
  getEyePos :: Vertex
  getLookAt :: Vertex
  getUp :: Vertex

text \<open>
  The geometric queries of \<^verbatim>\<open>geom.cpp\<close> and the greyscale reduction \<^verbatim>\<open>Colour::asGrey\<close>
  are not among the sources either, and the spec only names them (centroid, normal and
  area queries; "average or luminance-weighted channel combination"). They are
  parameters of the model: every function below that calls one takes the record \<open>g\<close>.
\<close>

record GeomLib =
  paraCentre :: "Quad \<Rightarrow> Vertex list \<Rightarrow> Vertex"
  paraCross :: "Quad \<Rightarrow> Vertex list \<Rightarrow> Vertex"
  paraArea :: "Quad \<Rightarrow> Vertex list \<Rightarrow> double"
  asGrey :: "Colour \<Rightarrow> double"

subsection \<open>cube.cpp: scene initialisation\<close>

text \<open>
  The emitter test of \<^verbatim>\<open>initLighting\<close>,
  \<^verbatim>\<open>fabs(c.x()) < 0.5 && fabs(c.z()) < 0.5 & c.y() > 0.9\<close>. Comparison binds tighter than
  \<^verbatim>\<open>&\<close>, which binds tighter than \<^verbatim>\<open>&&\<close>: the two last comparisons are promoted to
  \<^verbatim>\<open>int\<close>, combined bitwise, and the result is converted back to \<^verbatim>\<open>bool\<close>.
\<close>

definition emitterTest :: "Vertex \<Rightarrow> bool" where
  "emitterTest c =
     (fabs (vx c) < Fin 0.5 \<and>
      ((of_bool (fabs (vz c) < Fin 0.5) :: int) AND of_bool (vy c > Fin 0.9)) \<noteq> 0)"

text \<open>The same test as the spec words it: the logical AND of the three comparisons.\<close>

definition emitterTest_logical :: "Vertex \<Rightarrow> bool" where
  "emitterTest_logical c =
     ((fabs (vx c) < Fin 0.5) \<and> (fabs (vz c) < Fin 0.5) \<and> (vy c > Fin 0.9))"

definition initQuad :: "GeomLib \<Rightarrow> Vertex list \<Rightarrow> Quad \<Rightarrow> Quad" where
  "initQuad g vs q =
     (let c = paraCentre g q vs;
          q1 = (if emitterTest c
                then q\<lparr>materialColour := Colour (Fin 2) (Fin 2) (Fin 2),
                       screenColour := Colour (Fin 2) (Fin 2) (Fin 2),
                       isEmitter := True\<rparr>
                else q)
      in if vx c < Fin (- 0.999)
         then q1\<lparr>materialColour := materialColour q1 * Colour (Fin 1) (Fin 0.5) (Fin 0.5)\<rparr>
         else if vx c > Fin 0.999
         then q1\<lparr>materialColour := materialColour q1 * Colour (Fin 0.5) (Fin 0.5) (Fin 1)\<rparr>
         else q1)"

definition initLighting :: "GeomLib \<Rightarrow> Quad list \<Rightarrow> Vertex list \<Rightarrow> Quad list" where
  "initLighting g qs vs = map (initQuad g vs) qs"

subsection \<open>cube.cpp: one iteration of the solver\<close>

text \<open>
  \<^verbatim>\<open>iterateLighting\<close>: the first loop fills \<^verbatim>\<open>updatedColours\<close> from the colours of
  \<open>qs\<close>, the second loop writes them back. \<^verbatim>\<open>transfers\<close> is the flattened matrix,
  read at \<^verbatim>\<open>i * n + j\<close>.
\<close>

definition iterateLighting :: "Quad list \<Rightarrow> double list \<Rightarrow> Quad list" where
  "iterateLighting qs transfers =
     (let n = length qs;
          updatedColours =
            fold (\<lambda>i uc.
                    let incoming =
                          (if isEmitter (qs ! i) then Colour (Fin 1) (Fin 1) (Fin 1)
                           else fold (\<lambda>j incoming.
                                        if i = j then incoming
                                        else incoming
                                               + scaleC (screenColour (qs ! j))
                                                   (transfers ! (i * n + j)))
                                  [0..<n] 0)
                    in uc[i := incoming * materialColour (qs ! i)])
              [0..<n] (replicate n 0)
      in fold (\<lambda>i qs'. qs'[i := (qs' ! i)\<lparr>screenColour := updatedColours ! i\<rparr>])
           [0..<n] qs)"

text \<open>\<open>iterations k\<close> is \<^verbatim>\<open>iterateLighting\<close> called \<open>k\<close> times on the scene.\<close>

primrec iterations :: "nat \<Rightarrow> Quad list \<Rightarrow> double list \<Rightarrow> Quad list" where
  "iterations 0 qs transfers = qs"
| "iterations (Suc k) qs transfers = iterateLighting (iterations k qs transfers) transfers"

subsection \<open>cube.cpp: the specular pass\<close>

text \<open>
  \<^verbatim>\<open>computeSpecularity\<close>. \<open>pos\<close> is the camera position that \<^verbatim>\<open>getCameraPos()\<close> reads
  from the global camera; the parameter \<^verbatim>\<open>transfers\<close> of the source is never read and
  is left out. \<open>specularVal\<close> is the value the body of the inner loop assigns to the
  variable of that name for target \<open>i\<close> and source \<open>j\<close>.
\<close>

definition specularPower :: nat where
  "specularPower = 32"

definition specularFactor :: double where
  "specularFactor = Fin 0.02"

definition specularVal ::
  "GeomLib \<Rightarrow> Vertex \<Rightarrow> Quad list \<Rightarrow> Vertex list \<Rightarrow> nat \<Rightarrow> nat \<Rightarrow> double" where
  "specularVal g pos qs vs i j =
     (let lightVector = norm_v (paraCentre g (qs ! i) vs - paraCentre g (qs ! j) vs);
          normalVector = norm_v (paraCross g (qs ! i) vs);
          dotProduct = Fin 2 * dot normalVector lightVector;
          reflectedVector = norm_v (scaleV normalVector dotProduct - lightVector);
          viewVector = scaleV (norm_v (pos - paraCentre g (qs ! i) vs)) (Fin (- 1))
      in std_pow (std_max (dot reflectedVector viewVector) (Fin 0)) specularPower)"

definition computeSpecularity ::
  "GeomLib \<Rightarrow> Vertex \<Rightarrow> Quad list \<Rightarrow> Vertex list \<Rightarrow> Quad list" where
  "computeSpecularity g pos qs vs =
     (let n = length qs;
          whiteLight = Colour (Fin 1) (Fin 1) (Fin 1);
          updatedColours =
            fold (\<lambda>i uc.
                    let uc1 = uc[i := screenColour (qs ! i)] in
                    if isSpecular (qs ! i) = False then uc1
                    else
                      let incoming =
                            fold (\<lambda>j incoming.
                                    if i = j then incoming
                                    else if isEmitter (qs ! j)
                                    then incoming
                                           + scaleC (scaleC whiteLight (specularVal g pos qs vs i j))
                                               specularFactor
                                    else incoming)
                              [0..<n] (Colour (Fin 0) (Fin 0) (Fin 0))
                      in uc1[i := uc1 ! i + incoming])
              [0..<n] (replicate n 0)
      in fold (\<lambda>i qs'. qs'[i := (qs' ! i)\<lparr>screenColour := updatedColours ! i\<rparr>])
           [0..<n] qs)"

text \<open>
  The geometry of a target \<open>i\<close>, a source \<open>j\<close> and the camera is non-degenerate when the
  two centroids, the normal of \<open>i\<close> and the camera position are finite, the normal is
  not the zero vector, and the centroid of \<open>i\<close> is neither the centroid of \<open>j\<close> nor the
  camera position: the three vectors the pass normalises are then not zero.
\<close>

definition nondegenerate ::
  "GeomLib \<Rightarrow> Vertex \<Rightarrow> Quad list \<Rightarrow> Vertex list \<Rightarrow> nat \<Rightarrow> nat \<Rightarrow> bool" where
  "nondegenerate g pos qs vs i j =
     (finiteV (paraCentre g (qs ! i) vs) \<and> finiteV (paraCentre g (qs ! j) vs) \<and>
      finiteV (paraCross g (qs ! i) vs) \<and> finiteV pos \<and>
      paraCentre g (qs ! i) vs \<noteq> paraCentre g (qs ! j) vs \<and>
      paraCross g (qs ! i) vs \<noteq> Vertex (Fin 0) (Fin 0) (Fin 0) \<and>
      pos \<noteq> paraCentre g (qs ! i) vs)"

subsection \<open>cube.cpp: total light and the convergence loop of main\<close>

definition calcLight :: "GeomLib \<Rightarrow> Quad list \<Rightarrow> Vertex list \<Rightarrow> double" where
  "calcLight g qs vs =
     fold (\<lambda>q totalLight. totalLight + asGrey g (screenColour q) * paraArea g q vs) qs (Fin 0)"

definition CONVERGENCE_TARGET :: double where
  "CONVERGENCE_TARGET = Fin 0.001"

text \<open>
  The \<^verbatim>\<open>do ... while (relChange > CONVERGENCE_TARGET)\<close> loop of \<^verbatim>\<open>main\<close>. The source has
  no iteration cap, so the loop is a partial function: not returning is \<open>None\<close>. The
  counter \<open>k\<close> is not in the source; it counts the calls of \<^verbatim>\<open>iterateLighting\<close>.
  \<open>solverStep\<close> is the loop body: the new faces, the new total, and \<^verbatim>\<open>relChange\<close>.
\<close>

definition solverStep ::
  "GeomLib \<Rightarrow> double list \<Rightarrow> Vertex list \<Rightarrow> Quad list \<Rightarrow> double \<Rightarrow> Quad list \<times> double \<times> double" where
  "solverStep g transfers vs faces light =
     (let faces' = iterateLighting faces transfers;
          newLight = calcLight g faces' vs;
          relChange = fabs (light / newLight - Fin 1)
      in (faces', newLight, relChange))"

partial_function (option) convergeLoop ::
  "GeomLib \<Rightarrow> double list \<Rightarrow> Vertex list \<Rightarrow> Quad list \<Rightarrow> double \<Rightarrow> nat
     \<Rightarrow> (Quad list \<times> double \<times> nat) option" where
  "convergeLoop g transfers vs faces light k =
     (case solverStep g transfers vs faces light of
        (faces', newLight, relChange) \<Rightarrow>
          if relChange > CONVERGENCE_TARGET
          then convergeLoop g transfers vs faces' newLight (Suc k)
          else Some (faces', newLight, Suc k))"

definition solve ::
  "GeomLib \<Rightarrow> double list \<Rightarrow> Vertex list \<Rightarrow> Quad list \<Rightarrow> (Quad list \<times> double \<times> nat) option" where
  "solve g transfers vs faces = convergeLoop g transfers vs faces (Fin 0) 0"

text \<open>
  For stating what the loop computes: \<open>lightAfter m\<close> is the value of the variable
  \<^verbatim>\<open>light\<close> after \<open>m\<close> iterations (\<^verbatim>\<open>0.0\<close> before the first), and \<open>relChangeAt m\<close> is the
  value of \<^verbatim>\<open>relChange\<close> that iteration \<open>m \<ge> 1\<close> computes.
\<close>

definition lightAfter ::
  "GeomLib \<Rightarrow> double list \<Rightarrow> Vertex list \<Rightarrow> Quad list \<Rightarrow> nat \<Rightarrow> double" where
  "lightAfter g transfers vs faces m =
     (if m = 0 then Fin 0 else calcLight g (iterations m faces transfers) vs)"

definition relChangeAt ::
  "GeomLib \<Rightarrow> double list \<Rightarrow> Vertex list \<Rightarrow> Quad list \<Rightarrow> nat \<Rightarrow> double" where
  "relChangeAt g transfers vs faces m =
     fabs (lightAfter g transfers vs faces (m - 1) / lightAfter g transfers vs faces m - Fin 1)"

subsection \<open>transfers.cpp: the analytic transfer calculator\<close>

definition calcSingleQuadSubtended :: "GeomLib \<Rightarrow> Vertex list \<Rightarrow> Camera \<Rightarrow> Quad \<Rightarrow> double" where
  "calcSingleQuadSubtended g m_vertices cam quad =
     (let centre = paraCentre g quad m_vertices;
          dir = centre - getEyePos cam;
          l = len dir;
          r2 = Fin 1 / (l * l);
          dir' = norm_v dir;
          nrm = paraCross g quad m_vertices;
          area = fmax (Fin 0) (dot nrm dir')
      in Fin 1.5 * r2 * area / M_PI)"

definition calcSingleQuadLight :: "GeomLib \<Rightarrow> Vertex list \<Rightarrow> Camera \<Rightarrow> Quad \<Rightarrow> double" where
  "calcSingleQuadLight g m_vertices cam quad =
     (let eyePos = getEyePos cam;
          centre = paraCentre g quad m_vertices;
          dir = centre - eyePos;
          l = len dir;
          r2 = Fin 1 / (l * l);
          dir' = norm_v dir;
          nrm = paraCross g quad m_vertices;
          area = fmax (Fin 0) (dot nrm dir');
          lookVec = norm_v (getLookAt cam - eyePos);
          cosCamAngle = fmax (Fin 0) (dot lookVec dir')
      in cosCamAngle * r2 * area / M_PI)"

text \<open>
  \<^verbatim>\<open>calcAllLights\<close> builds one camera per target \<open>i\<close> and pushes one weight per source
  \<open>j\<close>, \<open>j = i\<close> included. \<open>camOf\<close> is the camera of the loop body.
\<close>

definition camOf :: "GeomLib \<Rightarrow> Vertex list \<Rightarrow> Quad \<Rightarrow> Camera" where
  "camOf g m_vertices currQuad =
     (let up = Vertex (Fin 0) (Fin 0) (Fin 0);
          eye = paraCentre g currQuad m_vertices;
          lookAt = eye - paraCross g currQuad m_vertices
      in \<lparr>getEyePos = eye, getLookAt = lookAt, getUp = up\<rparr>)"

definition calcAllLights :: "GeomLib \<Rightarrow> Vertex list \<Rightarrow> Quad list \<Rightarrow> double list" where
  "calcAllLights g m_vertices m_faces =
     (let n = length m_faces
      in fold (\<lambda>i weights.
                 let currQuad = m_faces ! i;
                     cam = camOf g m_vertices currQuad
                 in fold (\<lambda>j weights.
                            weights @ [calcSingleQuadLight g m_vertices cam (m_faces ! j)])
                      [0..<n] weights)
           [0..<n] [])"

subsection \<open>rendering.cpp: the brightness normaliser\<close>

text \<open>
  \<open>camPos\<close> is the position of the global \<^verbatim>\<open>sceneCamera\<close>. \<open>visibleMax\<close> is the first
  loop of \<^verbatim>\<open>normaliseBrightness\<close>, the running maximum, started at \<^verbatim>\<open>0.0\<close>, over the
  channels of the non-emitters that face the camera, and \<open>scanStep\<close> is its body;
  \<open>rescale\<close> is the body of the second loop. Whether the normaliser reaches its target
  depends on how the machine rounds \<^verbatim>\<open>TARGET / max\<close> and the products with it, so both
  are the rounded operations here: \<open>scaleC_fl\<close> is \<^verbatim>\<open>Colour * double\<close> with each of the
  three products rounded.
\<close>

definition facesUs :: "GeomLib \<Rightarrow> Vertex \<Rightarrow> Quad \<Rightarrow> Vertex list \<Rightarrow> bool" where
  "facesUs g camPos q vs = (dot (paraCentre g q vs - camPos) (paraCross g q vs) > Fin 0)"

definition scanStep :: "GeomLib \<Rightarrow> Vertex \<Rightarrow> Vertex list \<Rightarrow> Quad \<Rightarrow> double \<Rightarrow> double" where
  "scanStep g camPos vs q mx =
     (if \<not> isEmitter q \<and> facesUs g camPos q vs
      then std_max (std_max (std_max mx (cr (screenColour q))) (cg (screenColour q)))
             (cb (screenColour q))
      else mx)"

definition visibleMax :: "GeomLib \<Rightarrow> Vertex \<Rightarrow> Quad list \<Rightarrow> Vertex list \<Rightarrow> double" where
  "visibleMax g camPos qs vs = fold (scanStep g camPos vs) qs (Fin 0)"

definition scaleC_fl :: "Colour \<Rightarrow> double \<Rightarrow> Colour" where
  "scaleC_fl c s = Colour (fl_times (cr c) s) (fl_times (cg c) s) (fl_times (cb c) s)"

definition rescale :: "double \<Rightarrow> Quad \<Rightarrow> Quad" where
  "rescale scale q =
     (if \<not> isEmitter q then q\<lparr>screenColour := scaleC_fl (screenColour q) scale\<rparr> else q)"

definition normaliseBrightness ::
  "GeomLib \<Rightarrow> Vertex \<Rightarrow> Quad list \<Rightarrow> Vertex list \<Rightarrow> Quad list" where
  "normaliseBrightness g camPos qs vs =
     (let TARGET = Fin 1;
          mx = visibleMax g camPos qs vs;
          scale = (if mx < TARGET then fl_divide TARGET mx else Fin 1)
      in map (rescale scale) qs)"

text \<open>
  The normaliser scans with \<^verbatim>\<open>facesUs\<close> before and after it has rescaled the colours.
  That the answers agree needs the geometry queries to read the vertex indices of a
  quad and not its colour, which is stated as a property of the parameter \<open>g\<close>.
  \<open>doubleColours\<close> says that the channels of every \<open>screenColour\<close> of a scene are values
  of the machine, as they are in every scene the program holds.
\<close>

definition geomIgnoresColour :: "GeomLib \<Rightarrow> bool" where
  "geomIgnoresColour g =
     (\<forall>q c vs. paraCentre g (q\<lparr>screenColour := c\<rparr>) vs = paraCentre g q vs \<and>
               paraCross g (q\<lparr>screenColour := c\<rparr>) vs = paraCross g q vs)"

definition doubleColours :: "Quad list \<Rightarrow> bool" where
  "doubleColours qs =
     list_all (\<lambda>q. isdouble (cr (screenColour q)) \<and> isdouble (cg (screenColour q)) \<and>
                    isdouble (cb (screenColour q))) qs"

subsection \<open>An example scene\<close>

text \<open>
  One instance of the geometry queries, for the concrete examples below: the centre of
  a quad is the midpoint of its diagonal, \<open>paraCross\<close> is the cross product of the two
  edges at its first vertex, the area is the length of that product, and the grey
  value is the mean of the channels. The vertices are the corners of the unit cube;
  \<open>floorIdx\<close> is its face \<open>z = 0\<close> and \<open>ceilingIdx\<close> its face \<open>z = 1\<close>, both with
  \<open>paraCross\<close> pointing out of the cube.
\<close>

definition addV :: "Vertex \<Rightarrow> Vertex \<Rightarrow> Vertex" where
  "addV u v = Vertex (vx u + vx v) (vy u + vy v) (vz u + vz v)"

definition cross :: "Vertex \<Rightarrow> Vertex \<Rightarrow> Vertex" where
  "cross u v =
     Vertex (vy u * vz v - vz u * vy v) (vz u * vx v - vx u * vz v) (vx u * vy v - vy u * vx v)"

definition edgeCross :: "Quad \<Rightarrow> Vertex list \<Rightarrow> Vertex" where
  "edgeCross q vs =
     cross (vs ! (indices q ! 1) - vs ! (indices q ! 0)) (vs ! (indices q ! 3) - vs ! (indices q ! 0))"

definition exampleGeom :: GeomLib where
  "exampleGeom =
     \<lparr>paraCentre = (\<lambda>q vs. scaleV (addV (vs ! (indices q ! 0)) (vs ! (indices q ! 2))) (Fin 0.5)),
      paraCross = edgeCross,
      paraArea = (\<lambda>q vs. len (edgeCross q vs)),
      asGrey = (\<lambda>c. (cr c + cg c + cb c) / Fin 3)\<rparr>"

definition cubeVertices :: "Vertex list" where
  "cubeVertices =
     [Vertex (Fin 0) (Fin 0) (Fin 0), Vertex (Fin 1) (Fin 0) (Fin 0),
      Vertex (Fin 1) (Fin 1) (Fin 0), Vertex (Fin 0) (Fin 1) (Fin 0),
      Vertex (Fin 0) (Fin 0) (Fin 1), Vertex (Fin 1) (Fin 0) (Fin 1),
      Vertex (Fin 1) (Fin 1) (Fin 1), Vertex (Fin 0) (Fin 1) (Fin 1)]"

definition floorIdx :: "nat list" where
  "floorIdx = [0, 3, 2, 1]"

definition ceilingIdx :: "nat list" where
  "ceilingIdx = [4, 5, 6, 7]"

text \<open>
  \<open>lamp\<close> is an emitter on the ceiling, as \<^verbatim>\<open>initLighting\<close> makes one; \<open>wall\<close> is an unlit
  reddish non-emitter on the floor, \<open>litWall\<close> the same after one solver iteration,
  \<open>dimWall\<close> the same with a dim colour, \<open>dimOnce\<close> and \<open>dimTwice\<close> what one and two
  passes of the normaliser make of it, \<open>brightWall\<close> what one pass makes of \<open>litWall\<close>,
  \<open>mirror\<close> a specular grey one, and \<open>glowingMirror\<close> is both emitter and specular.
\<close>

definition lamp :: Quad where
  "lamp = \<lparr>indices = ceilingIdx, isEmitter = True, isSpecular = False,
            materialColour = Colour (Fin 2) (Fin 2) (Fin 2),
            screenColour = Colour (Fin 2) (Fin 2) (Fin 2)\<rparr>"

definition wall :: Quad where
  "wall = \<lparr>indices = floorIdx, isEmitter = False, isSpecular = False,
            materialColour = Colour (Fin 1) (Fin 0.5) (Fin 0.5),
            screenColour = Colour (Fin 0) (Fin 0) (Fin 0)\<rparr>"

definition litWall :: Quad where
  "litWall = wall\<lparr>screenColour := Colour (Fin 0.5) (Fin 0.25) (Fin 0.25)\<rparr>"

definition dimWall :: Quad where
  "dimWall = wall\<lparr>screenColour := Colour (Fin (49 / 4096)) (Fin (1 / 128)) (Fin 0)\<rparr>"

definition brightWall :: Quad where
  "brightWall = wall\<lparr>screenColour := Colour (Fin 1) (Fin 0.5) (Fin 0.5)\<rparr>"

definition dimOnce :: Quad where
  "dimOnce = wall\<lparr>screenColour :=
     Colour (Fin (1 - 1 / 2 ^ 53)) (Fin (5882252574524729 / 9007199254740992)) (Fin 0)\<rparr>"

definition dimTwice :: Quad where
  "dimTwice = wall\<lparr>screenColour :=
     Colour (Fin 1) (Fin (2941126287262365 / 4503599627370496)) (Fin 0)\<rparr>"

definition mirror :: Quad where
  "mirror = \<lparr>indices = floorIdx, isEmitter = False, isSpecular = True,
              materialColour = Colour (Fin 0.5) (Fin 0.5) (Fin 0.5),
              screenColour = Colour (Fin 0.5) (Fin 0.5) (Fin 0.5)\<rparr>"

definition glowingMirror :: Quad where
  "glowingMirror = \<lparr>indices = floorIdx, isEmitter = True, isSpecular = True,
                     materialColour = Colour (Fin 2) (Fin 2) (Fin 2),
                     screenColour = Colour (Fin 2) (Fin 2) (Fin 2)\<rparr>"

definition exampleTransfers :: "double list" where
  "exampleTransfers = [Fin 0, Fin 0.5, Fin 0.25, Fin 0]"

definition cameraAbove :: Vertex where
  "cameraAbove = Vertex (Fin 0.5) (Fin 0.5) (Fin 2)"

definition cameraOnFloor :: Vertex where
  "cameraOnFloor = Vertex (Fin 0.5) (Fin 0.5) (Fin 0)"

section \<open>Properties\<close>

subsection \<open>The example scene\<close>

lemma floor_geometry:
  assumes "indices q = floorIdx"
  shows "paraCentre exampleGeom q cubeVertices = Vertex (Fin (1 / 2)) (Fin (1 / 2)) (Fin 0)"
    and "paraCross exampleGeom q cubeVertices = Vertex (Fin 0) (Fin 0) (Fin (- 1))"
    and "paraArea exampleGeom q cubeVertices = Fin 1"
  using assms
  by (simp_all add: exampleGeom_def edgeCross_def cubeVertices_def floorIdx_def scaleV_def
      addV_def cross_def len_def dot_def minus_Vertex_def minus_double_def)

lemma ceiling_geometry:
  assumes "indices q = ceilingIdx"
  shows "paraCentre exampleGeom q cubeVertices = Vertex (Fin (1 / 2)) (Fin (1 / 2)) (Fin 1)"
    and "paraCross exampleGeom q cubeVertices = Vertex (Fin 0) (Fin 0) (Fin 1)"
    and "paraArea exampleGeom q cubeVertices = Fin 1"
  using assms
  by (simp_all add: exampleGeom_def edgeCross_def cubeVertices_def ceilingIdx_def scaleV_def
      addV_def cross_def len_def dot_def minus_Vertex_def minus_double_def)

lemma geometry_wall_lamp:
  "paraCentre exampleGeom wall cubeVertices = Vertex (Fin (1 / 2)) (Fin (1 / 2)) (Fin 0)"
  "paraCross exampleGeom wall cubeVertices = Vertex (Fin 0) (Fin 0) (Fin (- 1))"
  "paraCentre exampleGeom lamp cubeVertices = Vertex (Fin (1 / 2)) (Fin (1 / 2)) (Fin 1)"
  "paraCross exampleGeom lamp cubeVertices = Vertex (Fin 0) (Fin 0) (Fin 1)"
  by (simp_all add: floor_geometry ceiling_geometry wall_def lamp_def)

subsection \<open>Loops that write a list by index\<close>

lemma length_fold_upd:
  "length (fold (\<lambda>i ys. ys[i := G i ys]) is xs) = length xs"
  by (induction "is" arbitrary: xs) simp_all

lemma fold_upd_nth:
  "m \<le> length xs \<Longrightarrow>
   \<forall>k < length xs. fold (\<lambda>i ys. ys[i := G i (ys ! i)]) [0..<m] xs ! k
      = (if k < m then G k (xs ! k) else xs ! k)"
proof (induction m)
  case 0
  then show ?case by simp
next
  case (Suc m)
  let ?ys = "fold (\<lambda>i ys. ys[i := G i (ys ! i)]) [0..<m] xs"
  have len: "length ?ys = length xs"
    by (rule length_fold_upd [where G = "\<lambda>i ys. G i (ys ! i)"])
  have ih: "\<forall>k < length xs. ?ys ! k = (if k < m then G k (xs ! k) else xs ! k)"
    using Suc by simp
  show ?case
  proof (intro allI impI)
    fix k assume k: "k < length xs"
    have m: "m < length xs" using Suc.prems by simp
    show "fold (\<lambda>i ys. ys[i := G i (ys ! i)]) [0..<Suc m] xs ! k
          = (if k < Suc m then G k (xs ! k) else xs ! k)"
    proof (cases "k = m")
      case True
      then show ?thesis using ih m len by simp
    next
      case False
      then show ?thesis using ih k len by (simp add: less_Suc_eq)
    qed
  qed
qed

lemma fold_upd_all:
  "fold (\<lambda>i ys. ys[i := G i (ys ! i)]) [0..<length xs] xs = map2 G [0..<length xs] xs"
proof (rule nth_equalityI)
  show "length (fold (\<lambda>i ys. ys[i := G i (ys ! i)]) [0..<length xs] xs)
        = length (map2 G [0..<length xs] xs)"
    by (simp add: length_fold_upd [where G = "\<lambda>i ys. G i (ys ! i)"])
next
  fix k assume "k < length (fold (\<lambda>i ys. ys[i := G i (ys ! i)]) [0..<length xs] xs)"
  then have k: "k < length xs"
    by (simp add: length_fold_upd [where G = "\<lambda>i ys. G i (ys ! i)"])
  then show "fold (\<lambda>i ys. ys[i := G i (ys ! i)]) [0..<length xs] xs ! k
             = map2 G [0..<length xs] xs ! k"
    using fold_upd_nth [of "length xs" xs G] by simp
qed

lemma map2_const_snd:
  "length ys = n \<Longrightarrow> map2 (\<lambda>i _. F i) [0..<n] ys = map F [0..<n]"
  by (rule nth_equalityI) simp_all

lemma fold_upd_replicate:
  "fold (\<lambda>i ys. ys[i := F i]) [0..<n] (replicate n c) = map F [0..<n]"
  using fold_upd_all [of "\<lambda>i _. F i" "replicate n c"]
  by (simp add: map2_const_snd)

lemma fold_skip_sum:
  fixes f :: "nat \<Rightarrow> 'a::comm_monoid_add"
  shows "fold (\<lambda>j acc. if i = j then acc else acc + f j) [0..<n] a
         = a + (\<Sum>j\<in>{0..<n} - {i}. f j)"
proof (induction n)
  case 0
  then show ?case by simp
next
  case (Suc n)
  show ?case
  proof (cases "i = n")
    case True
    have "{0..<Suc n} - {n} = {0..<n} - {n}" by auto
    with Suc True show ?thesis by simp
  next
    case False
    have "{0..<Suc n} - {i} = insert n ({0..<n} - {i})" using False by auto
    with Suc False show ?thesis by (simp add: ac_simps)
  qed
qed

subsection \<open>Arithmetic on double\<close>

lemma one_times_double: "Fin 1 * (a::double) = a"
  by (cases a) simp_all

lemma white_times_Colour: "Colour (Fin 1) (Fin 1) (Fin 1) * c = c"
  by (simp add: times_Colour_def one_times_double)

subsection \<open>The solver iteration\<close>

lemma iterateLighting_eq:
  "iterateLighting qs transfers
     = map2 (\<lambda>i q. q\<lparr>screenColour :=
                (if isEmitter (qs ! i) then Colour (Fin 1) (Fin 1) (Fin 1)
                 else (\<Sum>j\<in>{0..<length qs} - {i}.
                         scaleC (screenColour (qs ! j)) (transfers ! (i * length qs + j))))
                * materialColour (qs ! i)\<rparr>) [0..<length qs] qs"
proof -
  let ?n = "length qs"
  let ?F = "\<lambda>i. (if isEmitter (qs ! i) then Colour (Fin 1) (Fin 1) (Fin 1)
                 else (\<Sum>j\<in>{0..<length qs} - {i}.
                         scaleC (screenColour (qs ! j)) (transfers ! (i * length qs + j))))
                * materialColour (qs ! i)"
  have uc: "fold (\<lambda>i uc.
                    let incoming =
                          (if isEmitter (qs ! i) then Colour (Fin 1) (Fin 1) (Fin 1)
                           else fold (\<lambda>j incoming.
                                        if i = j then incoming
                                        else incoming
                                               + scaleC (screenColour (qs ! j))
                                                   (transfers ! (i * ?n + j)))
                                  [0..<?n] 0)
                    in uc[i := incoming * materialColour (qs ! i)])
              [0..<?n] (replicate ?n 0) = map ?F [0..<?n]" (is "?uc = _")
  proof -
    have "?uc = fold (\<lambda>i ys. ys[i := ?F i]) [0..<?n] (replicate ?n 0)"
      by (simp add: Let_def fold_skip_sum cong: if_cong)
    then show ?thesis
      by (simp only: fold_upd_replicate)
  qed
  have "iterateLighting qs transfers
        = fold (\<lambda>i qs'. qs'[i := (\<lambda>i q. q\<lparr>screenColour := map ?F [0..<?n] ! i\<rparr>) i (qs' ! i)])
            [0..<?n] qs"
    unfolding iterateLighting_def Let_def uc [unfolded Let_def] ..
  also have "\<dots> = map2 (\<lambda>i q. q\<lparr>screenColour := map ?F [0..<?n] ! i\<rparr>) [0..<?n] qs"
    by (rule fold_upd_all)
  also have "\<dots> = map2 (\<lambda>i q. q\<lparr>screenColour := ?F i\<rparr>) [0..<?n] qs"
    by (rule nth_equalityI) simp_all
  finally show ?thesis .
qed

lemma length_iterateLighting: "length (iterateLighting qs transfers) = length qs"
  by (simp add: iterateLighting_eq)

lemma iterateLighting_nth:
  "i < length qs \<Longrightarrow>
   iterateLighting qs transfers ! i =
     (qs ! i)\<lparr>screenColour :=
        (if isEmitter (qs ! i) then Colour (Fin 1) (Fin 1) (Fin 1)
         else (\<Sum>j\<in>{0..<length qs} - {i}.
                 scaleC (screenColour (qs ! j)) (transfers ! (i * length qs + j))))
        * materialColour (qs ! i)\<rparr>"
  by (simp add: iterateLighting_eq)

text \<open>
  Claim C1. For every scene \<open>qs\<close> and every \<open>n \<times> n\<close> transfer matrix, one call of
  \<^verbatim>\<open>iterateLighting\<close> keeps the number of elements and replaces the \<open>screenColour\<close> of
  each element \<open>i\<close>, and nothing else of it, by \<open>incoming * materialColour i\<close>
  (component-wise), where \<open>incoming\<close> is white \<open>(1, 1, 1)\<close> for an emitter and otherwise
  the sum over all \<open>j \<noteq> i\<close> of \<open>screenColour j * T[i][j]\<close>. The right-hand side reads only
  the scene before the call: no element sees a value written in the same iteration.
\<close>

theorem iterateLighting_step:
  assumes "length transfers = length qs * length qs"
  shows "length (iterateLighting qs transfers) = length qs \<and>
         (\<forall>i<length qs.
            iterateLighting qs transfers ! i =
              (qs ! i)\<lparr>screenColour :=
                 (if isEmitter (qs ! i) then Colour (Fin 1) (Fin 1) (Fin 1)
                  else (\<Sum>j\<in>{0..<length qs} - {i}.
                          scaleC (screenColour (qs ! j)) (transfers ! (i * length qs + j))))
                 * materialColour (qs ! i)\<rparr>)"
  using length_iterateLighting iterateLighting_nth by blast

theorem iterateLighting_step_witness:
  "length exampleTransfers = length [lamp, wall] * length [lamp, wall] \<and>
   iterateLighting [lamp, wall] exampleTransfers ! 0 = lamp \<and>
   iterateLighting [lamp, wall] exampleTransfers ! 1 = litWall"
proof -
  have len: "length exampleTransfers = length [lamp, wall] * length [lamp, wall]"
    by (simp add: exampleTransfers_def)
  have s0: "{0..<Suc (Suc 0)} - {0} = {Suc 0}" and s1: "{0..<Suc (Suc 0)} - {Suc 0} = {0}"
    by auto
  note step = iterateLighting_step [OF len, THEN conjunct2, rule_format]
  have "iterateLighting [lamp, wall] exampleTransfers ! 0 = lamp"
    and "iterateLighting [lamp, wall] exampleTransfers ! 1 = litWall"
    using step [of 0] step [of 1]
    by (simp_all add: exampleTransfers_def lamp_def wall_def litWall_def s0 s1 scaleC_def
        times_Colour_def plus_Colour_def zero_Colour_def)
  with len show ?thesis by simp
qed

lemma iterations_invariant:
  "length (iterations k qs transfers) = length qs \<and>
   (\<forall>i<length qs. isEmitter (iterations k qs transfers ! i) = isEmitter (qs ! i) \<and>
                   materialColour (iterations k qs transfers ! i) = materialColour (qs ! i))"
  by (induction k) (simp_all add: length_iterateLighting iterateLighting_nth)

text \<open>
  Claim C8. After every solver iteration (any number \<open>k > 0\<close> of calls of
  \<^verbatim>\<open>iterateLighting\<close>), an element flagged \<open>isEmitter\<close> has the radiance white \<open>(1, 1, 1)\<close>
  times its own \<open>materialColour\<close>, which is its \<open>materialColour\<close>: the value depends neither
  on the entries of the transfer matrix nor on the colour of any element.
\<close>

theorem emitter_invariance:
  assumes "length transfers = length qs * length qs"
    and "i < length qs" and "isEmitter (qs ! i)" and "0 < k"
  shows "screenColour (iterations k qs transfers ! i)
           = Colour (Fin 1) (Fin 1) (Fin 1) * materialColour (qs ! i) \<and>
         screenColour (iterations k qs transfers ! i) = materialColour (qs ! i)"
proof -
  from \<open>0 < k\<close> obtain m where k: "k = Suc m"
    by (cases k) simp_all
  let ?prev = "iterations m qs transfers"
  have inv: "length ?prev = length qs" "isEmitter (?prev ! i)"
    "materialColour (?prev ! i) = materialColour (qs ! i)"
    using iterations_invariant [of m qs transfers] assms(2,3) by simp_all
  have "screenColour (iterateLighting ?prev transfers ! i)
        = Colour (Fin 1) (Fin 1) (Fin 1) * materialColour (qs ! i)"
    using inv assms(2) by (simp add: iterateLighting_nth)
  then show ?thesis
    by (simp add: k white_times_Colour)
qed

theorem emitter_invariance_witness:
  "screenColour (iterations 3 [lamp, wall] exampleTransfers ! 0) = Colour (Fin 2) (Fin 2) (Fin 2)"
proof -
  have "length exampleTransfers = length [lamp, wall] * length [lamp, wall]"
    and "0 < length [lamp, wall]" and "isEmitter ([lamp, wall] ! 0)"
    by (simp_all add: exampleTransfers_def lamp_def)
  from emitter_invariance [OF this, of 3, THEN conjunct2] show ?thesis
    by (simp add: lamp_def)
qed

subsection \<open>Scene initialisation\<close>

text \<open>
  Claim C9. For every element centre \<open>c\<close>, the emitter test of \<^verbatim>\<open>initLighting\<close> as the
  source writes it, with the bitwise \<^verbatim>\<open>&\<close> between its second and third comparison, has
  the value of the logical AND of the three comparisons \<^verbatim>\<open>fabs(c.x()) < 0.5\<close>,
  \<^verbatim>\<open>fabs(c.z()) < 0.5\<close> and \<^verbatim>\<open>c.y() > 0.9\<close>; so \<^verbatim>\<open>initLighting\<close> flags as emitters exactly
  the elements whose centre passes the logical test (and those flagged before).
\<close>

theorem emitterTest_bitwise_is_logical:
  "emitterTest c = emitterTest_logical c \<and>
   map isEmitter (initLighting g qs vs)
     = map (\<lambda>q. isEmitter q \<or> emitterTest_logical (paraCentre g q vs)) qs"
proof -
  have t: "emitterTest c = emitterTest_logical c" for c
    by (simp add: emitterTest_def emitterTest_logical_def)
  have "isEmitter (initQuad g vs q) = (isEmitter q \<or> emitterTest_logical (paraCentre g q vs))"
    for q
    by (simp add: initQuad_def Let_def t)
  then show ?thesis
    by (simp add: initLighting_def t)
qed

theorem emitterTest_bitwise_is_logical_witness:
  "emitterTest (Vertex (Fin 0) (Fin 1) (Fin 0)) \<and>
   emitterTest_logical (Vertex (Fin 0) (Fin 1) (Fin 0)) \<and>
   emitterTest (Vertex (Fin 0) (Fin 0) (Fin 0)) = False"
  using emitterTest_bitwise_is_logical [of "Vertex (Fin 0) (Fin 1) (Fin 0)"]
  by (simp add: emitterTest_logical_def emitterTest_def)


subsection \<open>The analytic transfer calculator\<close>

lemma isfinite_iff: "isfinite a \<longleftrightarrow> (\<exists>r. a = Fin r)"
  by (cases a) simp_all

lemma finiteV_iff: "finiteV v \<longleftrightarrow> (\<exists>a b c. v = Vertex (Fin a) (Fin b) (Fin c))"
  by (cases v) (auto simp: finiteV_def isfinite_iff)

lemma minus_self_double: "(a::double) - a = Fin 0 \<or> a - a = NaN"
  by (cases a) (simp_all add: minus_double_def)

lemma len_minus_self: "len (v - v) = Fin 0 \<or> len (v - v) = NaN"
proof -
  obtain a b c where v: "v = Vertex a b c" by (cases v)
  have "a - a = Fin 0 \<or> a - a = NaN" "b - b = Fin 0 \<or> b - b = NaN" "c - c = Fin 0 \<or> c - c = NaN"
    by (rule minus_self_double)+
  then show ?thesis
    by (auto simp: v len_def dot_def minus_Vertex_def)
qed

lemma inv_sq_zero_or_nan:
  "l = Fin 0 \<or> l = NaN \<Longrightarrow> Fin 1 / (l * l) = PInf \<or> Fin 1 / (l * l) = NaN"
  by auto

lemma fmax_zero_cases: "(\<exists>a\<ge>0. fmax (Fin 0) x = Fin a) \<or> fmax (Fin 0) x = PInf"
  by (cases x) (auto simp: fmax_def)

lemma times_pinf_or_nan:
  assumes "r = PInf \<or> r = NaN" and "(\<exists>a\<ge>0. c = Fin a) \<or> c = PInf"
  shows "c * r = PInf \<or> c * r = NaN" and "r * c = PInf \<or> r * c = NaN"
  using assms by auto

lemma divide_pi_pinf_or_nan:
  "r = PInf \<or> r = NaN \<Longrightarrow> r / M_PI = PInf \<or> r / M_PI = NaN"
  using pi_gt_zero by (auto simp: M_PI_def)

lemma pinf_product:
  assumes r: "r2 = PInf \<or> r2 = NaN"
    and c: "(\<exists>a\<ge>0. c = Fin a) \<or> c = PInf"
    and a: "(\<exists>b\<ge>0. ar = Fin b) \<or> ar = PInf"
  shows "c * r2 * ar / M_PI = PInf \<or> c * r2 * ar / M_PI = NaN"
  by (intro divide_pi_pinf_or_nan times_pinf_or_nan(2) [OF _ a] times_pinf_or_nan(1) [OF r c])

lemma zero_distance_inf_or_nan:
  assumes "paraCentre g quad m_vertices = getEyePos cam"
  shows "(calcSingleQuadLight g m_vertices cam quad = PInf \<or>
          calcSingleQuadLight g m_vertices cam quad = NaN) \<and>
         (calcSingleQuadSubtended g m_vertices cam quad = PInf \<or>
          calcSingleQuadSubtended g m_vertices cam quad = NaN)"
proof -
  let ?dir = "paraCentre g quad m_vertices - getEyePos cam"
  have "len ?dir = Fin 0 \<or> len ?dir = NaN"
    using assms len_minus_self by simp
  then have r2: "Fin 1 / (len ?dir * len ?dir) = PInf \<or> Fin 1 / (len ?dir * len ?dir) = NaN"
    by (rule inv_sq_zero_or_nan)
  have half: "(\<exists>a\<ge>0. Fin 1.5 = Fin a) \<or> Fin 1.5 = PInf"
    by (intro disjI1 exI [of _ "1.5"]) simp
  show ?thesis
    unfolding calcSingleQuadLight_def calcSingleQuadSubtended_def Let_def
    using pinf_product [OF r2 fmax_zero_cases fmax_zero_cases]
      pinf_product [OF r2 half fmax_zero_cases]
    by blast
qed


text \<open>
  Claim C4, as amended. For a camera placed at the centroid of the quad it looks at (a
  zero-distance pair), the analytic per-pair computations have no guard: the inverse
  square term is \<^verbatim>\<open>1.0 / (0 * 0)\<close>, and both \<^verbatim>\<open>calcSingleQuadLight\<close> and
  \<^verbatim>\<open>calcSingleQuadSubtended\<close> return \<open>+\<infinity>\<close> or NaN, never zero.
\<close>

theorem coincident_centre_no_guard:
  assumes "paraCentre g quad m_vertices = getEyePos cam"
  shows "(calcSingleQuadLight g m_vertices cam quad = PInf \<or>
          calcSingleQuadLight g m_vertices cam quad = NaN) \<and>
         (calcSingleQuadSubtended g m_vertices cam quad = PInf \<or>
          calcSingleQuadSubtended g m_vertices cam quad = NaN)"
  using assms by (rule zero_distance_inf_or_nan)

theorem coincident_centre_no_guard_witness:
  "paraCentre exampleGeom mirror cubeVertices = getEyePos (camOf exampleGeom cubeVertices wall) \<and>
   (calcSingleQuadLight exampleGeom cubeVertices (camOf exampleGeom cubeVertices wall) mirror = PInf \<or>
    calcSingleQuadLight exampleGeom cubeVertices (camOf exampleGeom cubeVertices wall) mirror = NaN)"
proof -
  have c: "paraCentre exampleGeom mirror cubeVertices
           = getEyePos (camOf exampleGeom cubeVertices wall)"
    by (simp add: exampleGeom_def camOf_def mirror_def wall_def Let_def)
  from coincident_centre_no_guard [OF c] show ?thesis
    using c by blast
qed

text \<open>
  The claim as stated fails for the two floor quads \<open>wall\<close> and \<open>mirror\<close>, which share a
  centroid: the coefficient is NaN.
\<close>

theorem coincident_centre_nan:
  "calcSingleQuadLight exampleGeom cubeVertices (camOf exampleGeom cubeVertices wall) mirror = NaN \<and>
   calcSingleQuadSubtended exampleGeom cubeVertices (camOf exampleGeom cubeVertices wall) mirror = NaN"
  by (simp add: calcSingleQuadLight_def calcSingleQuadSubtended_def camOf_def exampleGeom_def
      edgeCross_def cubeVertices_def wall_def mirror_def floorIdx_def Let_def norm_v_def len_def
      dot_def scaleV_def addV_def cross_def minus_Vertex_def minus_double_def fmax_def M_PI_def)


lemma fold_push_back: "fold (\<lambda>j w. w @ [f j]) [0..<n] w = w @ map f [0..<n]"
  by (induction n) simp_all

lemma fold_append_rows: "fold (\<lambda>i w. w @ F i) [0..<m] w = w @ concat (map F [0..<m])"
  by (induction m) simp_all

lemma calcAllLights_eq:
  "calcAllLights g vs faces =
     concat (map (\<lambda>i. map (\<lambda>j. calcSingleQuadLight g vs (camOf g vs (faces ! i)) (faces ! j))
                         [0..<length faces]) [0..<length faces])"
  by (simp add: calcAllLights_def Let_def fold_push_back fold_append_rows)

lemma length_concat_rows: "length (concat (map (\<lambda>i. map (f i) [0..<n]) [0..<m])) = m * n"
  by (induction m) simp_all

lemma nth_concat_rows:
  "i < m \<Longrightarrow> j < n \<Longrightarrow> concat (map (\<lambda>i. map (f i) [0..<n]) [0..<m]) ! (i * n + j) = f i j"
proof (induction m)
  case 0
  then show ?case by simp
next
  case (Suc m)
  show ?case
  proof (cases "i = m")
    case True
    with Suc.prems show ?thesis
      by (simp add: nth_append length_concat_rows)
  next
    case False
    with Suc.prems have im: "i < m" by simp
    then have "Suc i \<le> m" by simp
    then have "Suc i * n \<le> m * n" by (rule mult_le_mono1)
    with Suc.prems have "i * n + j < m * n" by simp
    with Suc.IH [OF im Suc.prems(2)] show ?thesis
      by (simp add: nth_append length_concat_rows)
  qed
qed

lemma calcAllLights_nth:
  "i < length faces \<Longrightarrow> j < length faces \<Longrightarrow>
   calcAllLights g vs faces ! (i * length faces + j)
     = calcSingleQuadLight g vs (camOf g vs (faces ! i)) (faces ! j)"
  by (simp add: calcAllLights_eq nth_concat_rows)

lemma length_calcAllLights: "length (calcAllLights g vs faces) = length faces * length faces"
  by (simp add: calcAllLights_eq length_concat_rows)

lemma inv_sq_not_negative: "Fin 1 / (l * l) = NaN \<or> Fin 0 \<le> Fin 1 / (l * l)"
  by (cases l) auto

lemma fmax_zero_not_negative: "fmax (Fin 0) x = NaN \<or> Fin 0 \<le> fmax (Fin 0) x"
  by (cases x) (auto simp: fmax_def)

lemma times_not_negative:
  "a = NaN \<or> Fin 0 \<le> a \<Longrightarrow> b = NaN \<or> Fin 0 \<le> b \<Longrightarrow> a * b = NaN \<or> Fin 0 \<le> a * b"
  by (cases a; cases b) auto

lemma divide_pi_not_negative: "a = NaN \<or> Fin 0 \<le> a \<Longrightarrow> a / M_PI = NaN \<or> Fin 0 \<le> a / M_PI"
  using pi_gt_zero by (cases a) (auto simp: M_PI_def)

lemma calcSingleQuadLight_not_negative:
  "calcSingleQuadLight g vs cam quad = NaN \<or> Fin 0 \<le> calcSingleQuadLight g vs cam quad"
  unfolding calcSingleQuadLight_def Let_def
  by (intro divide_pi_not_negative times_not_negative inv_sq_not_negative fmax_zero_not_negative)


lemma finite_minus: "finiteV u \<Longrightarrow> finiteV v \<Longrightarrow> finiteV (u - v)"
  by (auto simp: finiteV_iff minus_Vertex_def minus_double_def)

lemma len_finite_nonzero:
  assumes "finiteV u" and "finiteV v" and "u \<noteq> v"
  shows "\<exists>r>0. len (u - v) = Fin r"
proof -
  obtain a b c where u: "u = Vertex (Fin a) (Fin b) (Fin c)"
    using assms(1) by (auto simp: finiteV_iff)
  obtain a' b' c' where v: "v = Vertex (Fin a') (Fin b') (Fin c')"
    using assms(2) by (auto simp: finiteV_iff)
  let ?s = "(a - a') * (a - a') + (b - b') * (b - b') + (c - c') * (c - c')"
  have "a - a' \<noteq> 0 \<or> b - b' \<noteq> 0 \<or> c - c' \<noteq> 0"
    using assms(3) u v by auto
  then have pos: "0 < ?s"
    by (metis add_pos_nonneg add_nonneg_pos zero_le_square zero_less_mult_iff
        linorder_neqE_linordered_idom mult_neg_neg mult_pos_pos add_nonneg_nonneg)
  have "len (u - v) = Fin (sqrt ?s)"
    using pos by (simp add: u v len_def dot_def minus_Vertex_def minus_double_def)
  with pos show ?thesis by auto
qed

lemma norm_v_finite:
  assumes "finiteV w" and "len w = Fin r" and "0 < r"
  shows "finiteV (norm_v w)"
  using assms by (auto simp: finiteV_iff norm_v_def scaleV_def)

lemma norm_v_finite_or_nan:
  assumes "finiteV w"
  shows "finiteV (norm_v w) \<or> norm_v w = Vertex NaN NaN NaN"
proof -
  obtain a b c where w: "w = Vertex (Fin a) (Fin b) (Fin c)"
    using assms by (auto simp: finiteV_iff)
  let ?s = "a * a + b * b + c * c"
  have nn: "0 \<le> ?s" by simp
  show ?thesis
  proof (cases "?s = 0")
    case True
    then have "a = 0" "b = 0" "c = 0"
      by (simp_all add: add_nonneg_eq_0_iff)
    then show ?thesis
      by (simp add: w norm_v_def len_def dot_def scaleV_def)
  next
    case False
    with nn have "0 < ?s" by linarith
    then have "0 < sqrt ?s" by simp
    then show ?thesis
      using nn by (simp add: w norm_v_def len_def dot_def scaleV_def finiteV_def)
  qed
qed

lemma dot_finite_or_nan:
  assumes "finiteV u \<or> u = Vertex NaN NaN NaN" and "finiteV v"
  shows "isfinite (dot u v) \<or> dot u v = NaN"
  using assms by (auto simp: finiteV_iff dot_def)

lemma fmax_zero_finite:
  "isfinite x \<or> x = NaN \<Longrightarrow> \<exists>a\<ge>0. fmax (Fin 0) x = Fin a"
  by (cases x) (auto simp: fmax_def)

lemma calcSingleQuadLight_finite:
  assumes eye: "finiteV (getEyePos cam)" and look: "finiteV (getLookAt cam)"
    and centre: "finiteV (paraCentre g quad vs)" and nrm: "finiteV (paraCross g quad vs)"
    and apart: "paraCentre g quad vs \<noteq> getEyePos cam"
  shows "\<exists>t\<ge>0. calcSingleQuadLight g vs cam quad = Fin t"
proof -
  let ?dir = "paraCentre g quad vs - getEyePos cam"
  obtain r where r: "0 < r" "len ?dir = Fin r"
    using len_finite_nonzero [OF centre eye apart] by blast
  have dir': "finiteV (norm_v ?dir)"
    using norm_v_finite [OF finite_minus [OF centre eye] r(2) r(1)] .
  obtain a where a: "0 \<le> a" "fmax (Fin 0) (dot (paraCross g quad vs) (norm_v ?dir)) = Fin a"
    using fmax_zero_finite [OF dot_finite_or_nan [OF disjI1 [OF nrm] dir']] by blast
  have "finiteV (norm_v (getLookAt cam - getEyePos cam))
        \<or> norm_v (getLookAt cam - getEyePos cam) = Vertex NaN NaN NaN"
    by (rule norm_v_finite_or_nan [OF finite_minus [OF look eye]])
  then obtain c where c: "0 \<le> c"
    "fmax (Fin 0) (dot (norm_v (getLookAt cam - getEyePos cam)) (norm_v ?dir)) = Fin c"
    using fmax_zero_finite [OF dot_finite_or_nan [OF _ dir']] by blast
  have "calcSingleQuadLight g vs cam quad = Fin (c * (1 / (r * r)) * a / pi)"
    using r(1) by (simp add: calcSingleQuadLight_def Let_def r(2) a(2) c(2) M_PI_def)
  moreover have "0 \<le> c * (1 / (r * r)) * a / pi"
    using a(1) c(1) r(1) pi_gt_zero by simp
  ultimately show ?thesis by blast
qed

lemma camOf_finite:
  assumes "finiteV (paraCentre g q vs)" and "finiteV (paraCross g q vs)"
  shows "finiteV (getEyePos (camOf g vs q))" and "finiteV (getLookAt (camOf g vs q))"
  using assms by (simp_all add: camOf_def Let_def finite_minus)

lemma camOf_eye: "getEyePos (camOf g vs q) = paraCentre g q vs"
  by (simp add: camOf_def Let_def)

text \<open>
  Claim C2, as amended. The matrix of \<^verbatim>\<open>calcAllLights\<close> has \<open>n * n\<close> entries, entry
  \<open>i * n + j\<close> being \<^verbatim>\<open>calcSingleQuadLight\<close> for the camera of \<open>i\<close> and the quad \<open>j\<close>.
  No entry is negative: each is NaN or at least zero, and it is a finite number at
  least zero when the centroids and normals of \<open>i\<close> and \<open>j\<close> are finite and the two
  centroids differ. The diagonal is not zero: \<open>T[i][i]\<close> is computed like every other
  entry and is \<open>+\<infinity>\<close> or NaN.
\<close>

theorem transfer_matrix_entries:
  fixes g vs faces
  defines "T \<equiv> calcAllLights g vs faces" and "n \<equiv> length faces"
  shows "length T = n * n \<and>
    (\<forall>i<n. \<forall>j<n.
       T ! (i * n + j) = calcSingleQuadLight g vs (camOf g vs (faces ! i)) (faces ! j) \<and>
       (T ! (i * n + j) = NaN \<or> Fin 0 \<le> T ! (i * n + j)) \<and>
       (finiteV (paraCentre g (faces ! i) vs) \<and> finiteV (paraCross g (faces ! i) vs) \<and>
        finiteV (paraCentre g (faces ! j) vs) \<and> finiteV (paraCross g (faces ! j) vs) \<and>
        paraCentre g (faces ! j) vs \<noteq> paraCentre g (faces ! i) vs
          \<longrightarrow> (\<exists>t\<ge>0. T ! (i * n + j) = Fin t))) \<and>
    (\<forall>i<n. T ! (i * n + i) = PInf \<or> T ! (i * n + i) = NaN)"
proof (intro conjI allI impI)
  show "length T = n * n"
    by (simp add: T_def n_def length_calcAllLights)
next
  fix i j assume "i < n" "j < n"
  then show "T ! (i * n + j) = calcSingleQuadLight g vs (camOf g vs (faces ! i)) (faces ! j)"
    by (simp add: T_def n_def calcAllLights_nth)
  then show "T ! (i * n + j) = NaN \<or> Fin 0 \<le> T ! (i * n + j)"
    using calcSingleQuadLight_not_negative by simp
next
  fix i j assume ij: "i < n" "j < n"
    and fin: "finiteV (paraCentre g (faces ! i) vs) \<and> finiteV (paraCross g (faces ! i) vs) \<and>
        finiteV (paraCentre g (faces ! j) vs) \<and> finiteV (paraCross g (faces ! j) vs) \<and>
        paraCentre g (faces ! j) vs \<noteq> paraCentre g (faces ! i) vs"
  have "\<exists>t\<ge>0. calcSingleQuadLight g vs (camOf g vs (faces ! i)) (faces ! j) = Fin t"
    using fin by (intro calcSingleQuadLight_finite camOf_finite) (simp_all add: camOf_eye)
  then show "\<exists>t\<ge>0. T ! (i * n + j) = Fin t"
    using ij by (simp add: T_def n_def calcAllLights_nth)
next
  fix i assume i: "i < n"
  have "paraCentre g (faces ! i) vs = getEyePos (camOf g vs (faces ! i))"
    by (simp add: camOf_eye)
  from zero_distance_inf_or_nan [OF this, THEN conjunct1]
  show "T ! (i * n + i) = PInf \<or> T ! (i * n + i) = NaN"
    using i by (simp add: T_def n_def calcAllLights_nth)
qed


lemma example_matrix_entries:
  "calcSingleQuadLight exampleGeom cubeVertices (camOf exampleGeom cubeVertices wall) wall = NaN"
  "calcSingleQuadLight exampleGeom cubeVertices (camOf exampleGeom cubeVertices wall) lamp = Fin (1 / pi)"
  "calcSingleQuadLight exampleGeom cubeVertices (camOf exampleGeom cubeVertices lamp) wall = Fin (1 / pi)"
  "calcSingleQuadLight exampleGeom cubeVertices (camOf exampleGeom cubeVertices lamp) lamp = NaN"
  by (simp_all add: calcSingleQuadLight_def camOf_def geometry_wall_lamp Let_def norm_v_def len_def
      dot_def scaleV_def minus_Vertex_def minus_double_def fmax_def M_PI_def)

theorem transfer_matrix_entries_witness:
  "length (calcAllLights exampleGeom cubeVertices [wall, lamp]) = 4 \<and>
   (\<exists>t\<ge>0. calcAllLights exampleGeom cubeVertices [wall, lamp] ! 1 = Fin t) \<and>
   (calcAllLights exampleGeom cubeVertices [wall, lamp] ! 3 = PInf \<or>
    calcAllLights exampleGeom cubeVertices [wall, lamp] ! 3 = NaN)"
proof -
  note th = transfer_matrix_entries [of exampleGeom cubeVertices "[wall, lamp]"]
  have fin: "finiteV (paraCentre exampleGeom ([wall, lamp] ! 0) cubeVertices) \<and>
      finiteV (paraCross exampleGeom ([wall, lamp] ! 0) cubeVertices) \<and>
      finiteV (paraCentre exampleGeom ([wall, lamp] ! 1) cubeVertices) \<and>
      finiteV (paraCross exampleGeom ([wall, lamp] ! 1) cubeVertices) \<and>
      paraCentre exampleGeom ([wall, lamp] ! 1) cubeVertices
        \<noteq> paraCentre exampleGeom ([wall, lamp] ! 0) cubeVertices"
    by (simp add: geometry_wall_lamp finiteV_def)
  have "\<exists>t\<ge>0. calcAllLights exampleGeom cubeVertices [wall, lamp] ! (0 * length [wall, lamp] + 1) = Fin t"
    using th [THEN conjunct2, THEN conjunct1, rule_format, of 0 1, THEN conjunct2, THEN conjunct2]
      fin by simp
  moreover have "calcAllLights exampleGeom cubeVertices [wall, lamp] ! (1 * length [wall, lamp] + 1) = PInf \<or>
      calcAllLights exampleGeom cubeVertices [wall, lamp] ! (1 * length [wall, lamp] + 1) = NaN"
    using th [THEN conjunct2, THEN conjunct2, rule_format, of 1] by simp
  moreover have "length (calcAllLights exampleGeom cubeVertices [wall, lamp]) = 4"
    using th [THEN conjunct1] by simp
  ultimately show ?thesis
    by (simp add: eval_nat_numeral)
qed

text \<open>
  The claim as stated fails on the scene of the floor quad and the ceiling lamp: the
  two diagonal entries are NaN, the two others are \<open>1 / \<pi>\<close>.
\<close>

theorem transfer_matrix_diagonal_nan:
  "calcAllLights exampleGeom cubeVertices [wall, lamp] = [NaN, Fin (1 / pi), Fin (1 / pi), NaN]"
  by (simp add: calcAllLights_eq example_matrix_entries upt_rec [of 0] upt_rec [of 1])

subsection \<open>The convergence loop\<close>

lemma convergeLoop_unfold:
  "convergeLoop g T vs (iterations m faces T) (lightAfter g T vs faces m) m =
     (if relChangeAt g T vs faces (Suc m) > CONVERGENCE_TARGET
      then convergeLoop g T vs (iterations (Suc m) faces T) (lightAfter g T vs faces (Suc m)) (Suc m)
      else Some (iterations (Suc m) faces T, lightAfter g T vs faces (Suc m), Suc m))"
  by (subst convergeLoop.simps) (simp add: solverStep_def Let_def relChangeAt_def lightAfter_def)

lemma convergeLoop_forward:
  assumes "m < k" and "\<not> relChangeAt g T vs faces k > CONVERGENCE_TARGET"
    and "\<forall>j. m < j \<and> j < k \<longrightarrow> relChangeAt g T vs faces j > CONVERGENCE_TARGET"
  shows "convergeLoop g T vs (iterations m faces T) (lightAfter g T vs faces m) m
         = Some (iterations k faces T, lightAfter g T vs faces k, k)"
  using assms
proof (induction "k - m" arbitrary: m)
  case 0
  then show ?case by simp
next
  case (Suc d)
  show ?case
  proof (cases "Suc m = k")
    case True
    with Suc.prems show ?thesis
      by (subst convergeLoop_unfold) auto
  next
    case False
    with Suc.prems have lt: "Suc m < k" by simp
    then have rc: "relChangeAt g T vs faces (Suc m) > CONVERGENCE_TARGET"
      using Suc.prems by simp
    have "d = k - Suc m" using Suc.hyps(2) by simp
    from Suc.hyps(1) [OF this lt Suc.prems(2)] Suc.prems(3)
    have "convergeLoop g T vs (iterations (Suc m) faces T) (lightAfter g T vs faces (Suc m)) (Suc m)
          = Some (iterations k faces T, lightAfter g T vs faces k, k)"
      by simp
    with rc show ?thesis
      by (subst convergeLoop_unfold) simp
  qed
qed


lemma convergeLoop_backward:
  assumes "convergeLoop g T vs fs l m = Some r"
  shows "\<forall>faces. fs = iterations m faces T \<and> l = lightAfter g T vs faces m \<longrightarrow>
           (\<exists>k>m. r = (iterations k faces T, lightAfter g T vs faces k, k) \<and>
                  \<not> relChangeAt g T vs faces k > CONVERGENCE_TARGET \<and>
                  (\<forall>j. m < j \<and> j < k \<longrightarrow> relChangeAt g T vs faces j > CONVERGENCE_TARGET))"
proof (rule convergeLoop.raw_induct
    [where P = "\<lambda>g T vs fs l m r.
       \<forall>faces. fs = iterations m faces T \<and> l = lightAfter g T vs faces m \<longrightarrow>
           (\<exists>k>m. r = (iterations k faces T, lightAfter g T vs faces k, k) \<and>
                  \<not> relChangeAt g T vs faces k > CONVERGENCE_TARGET \<and>
                  (\<forall>j. m < j \<and> j < k \<longrightarrow> relChangeAt g T vs faces j > CONVERGENCE_TARGET))",
     OF _ assms])
  fix loop g T vs fs l m r
  assume IH: "\<And>g T vs fs l m r. loop g T vs fs l m = Some r \<Longrightarrow>
       \<forall>faces. fs = iterations m faces T \<and> l = lightAfter g T vs faces m \<longrightarrow>
           (\<exists>k>m. r = (iterations k faces T, lightAfter g T vs faces k, k) \<and>
                  \<not> relChangeAt g T vs faces k > CONVERGENCE_TARGET \<and>
                  (\<forall>j. m < j \<and> j < k \<longrightarrow> relChangeAt g T vs faces j > CONVERGENCE_TARGET))"
    and unf: "(case solverStep g T vs fs l of
                (faces', newLight, relChange) \<Rightarrow>
                  if CONVERGENCE_TARGET < relChange
                  then loop g T vs faces' newLight (Suc m)
                  else Some (faces', newLight, Suc m)) = Some r"
  show "\<forall>faces. fs = iterations m faces T \<and> l = lightAfter g T vs faces m \<longrightarrow>
           (\<exists>k>m. r = (iterations k faces T, lightAfter g T vs faces k, k) \<and>
                  \<not> relChangeAt g T vs faces k > CONVERGENCE_TARGET \<and>
                  (\<forall>j. m < j \<and> j < k \<longrightarrow> relChangeAt g T vs faces j > CONVERGENCE_TARGET))"
  proof (intro allI impI)
    fix faces assume st: "fs = iterations m faces T \<and> l = lightAfter g T vs faces m"
    have step: "solverStep g T vs fs l
                = (iterations (Suc m) faces T, lightAfter g T vs faces (Suc m),
                   relChangeAt g T vs faces (Suc m))"
      using st by (simp add: solverStep_def Let_def relChangeAt_def lightAfter_def)
    have body: "(if relChangeAt g T vs faces (Suc m) > CONVERGENCE_TARGET
          then loop g T vs (iterations (Suc m) faces T) (lightAfter g T vs faces (Suc m)) (Suc m)
          else Some (iterations (Suc m) faces T, lightAfter g T vs faces (Suc m), Suc m)) = Some r"
      using unf unfolding step by (simp only: prod.case)
    show "\<exists>k>m. r = (iterations k faces T, lightAfter g T vs faces k, k) \<and>
                  \<not> relChangeAt g T vs faces k > CONVERGENCE_TARGET \<and>
                  (\<forall>j. m < j \<and> j < k \<longrightarrow> relChangeAt g T vs faces j > CONVERGENCE_TARGET)"
    proof (cases "relChangeAt g T vs faces (Suc m) > CONVERGENCE_TARGET")
      case True
      with body have "loop g T vs (iterations (Suc m) faces T)
                              (lightAfter g T vs faces (Suc m)) (Suc m) = Some r"
        by (simp only: if_True)
      from IH [OF this] have "\<exists>k>Suc m. r = (iterations k faces T, lightAfter g T vs faces k, k) \<and>
                  \<not> relChangeAt g T vs faces k > CONVERGENCE_TARGET \<and>
                  (\<forall>j. Suc m < j \<and> j < k \<longrightarrow> relChangeAt g T vs faces j > CONVERGENCE_TARGET)"
        by simp
      then obtain k where k: "Suc m < k" "r = (iterations k faces T, lightAfter g T vs faces k, k)"
        "\<not> relChangeAt g T vs faces k > CONVERGENCE_TARGET"
        "\<forall>j. Suc m < j \<and> j < k \<longrightarrow> relChangeAt g T vs faces j > CONVERGENCE_TARGET"
        by (elim exE conjE)
      have "\<forall>j. m < j \<and> j < k \<longrightarrow> relChangeAt g T vs faces j > CONVERGENCE_TARGET"
      proof (intro allI impI)
        fix j assume "m < j \<and> j < k"
        then have "j = Suc m \<or> (Suc m < j \<and> j < k)" by auto
        then show "relChangeAt g T vs faces j > CONVERGENCE_TARGET"
          using True k(4) by (elim disjE) simp_all
      qed
      moreover have "m < k" using k(1) by simp
      ultimately show ?thesis
        using k(2,3) by (intro exI [of _ k] conjI)
    next
      case False
      with body have "r = (iterations (Suc m) faces T, lightAfter g T vs faces (Suc m), Suc m)"
        by (simp only: if_False option.inject)
      with False show ?thesis
        by (intro exI [of _ "Suc m"]) auto
    qed
  qed
qed


lemma not_above_iff: "\<not> (x::double) > Fin t \<longleftrightarrow> x \<le> Fin t \<or> x = NaN"
  by (cases x) auto

lemma first_relChange:
  assumes "lightAfter g T vs faces 1 \<noteq> Fin 0" and "lightAfter g T vs faces 1 \<noteq> NaN"
  shows "relChangeAt g T vs faces 1 = Fin 1"
proof -
  have "lightAfter g T vs faces 0 = Fin 0"
    by (simp add: lightAfter_def)
  then show ?thesis
    using assms by (cases "lightAfter g T vs faces 1") (simp_all add: relChangeAt_def minus_double_def)
qed

lemma solve_iff:
  "solve g T vs faces = Some (faces', light', k) \<longleftrightarrow>
     0 < k \<and> faces' = iterations k faces T \<and> light' = lightAfter g T vs faces k \<and>
     \<not> relChangeAt g T vs faces k > CONVERGENCE_TARGET \<and>
     (\<forall>j. 0 < j \<and> j < k \<longrightarrow> relChangeAt g T vs faces j > CONVERGENCE_TARGET)"
proof
  assume "solve g T vs faces = Some (faces', light', k)"
  then have "convergeLoop g T vs faces (Fin 0) 0 = Some (faces', light', k)"
    by (simp add: solve_def)
  from convergeLoop_backward [OF this, rule_format, of faces]
  show "0 < k \<and> faces' = iterations k faces T \<and> light' = lightAfter g T vs faces k \<and>
     \<not> relChangeAt g T vs faces k > CONVERGENCE_TARGET \<and>
     (\<forall>j. 0 < j \<and> j < k \<longrightarrow> relChangeAt g T vs faces j > CONVERGENCE_TARGET)"
    by (auto simp: lightAfter_def)
next
  assume a: "0 < k \<and> faces' = iterations k faces T \<and> light' = lightAfter g T vs faces k \<and>
     \<not> relChangeAt g T vs faces k > CONVERGENCE_TARGET \<and>
     (\<forall>j. 0 < j \<and> j < k \<longrightarrow> relChangeAt g T vs faces j > CONVERGENCE_TARGET)"
  then have "convergeLoop g T vs (iterations 0 faces T) (lightAfter g T vs faces 0) 0
         = Some (iterations k faces T, lightAfter g T vs faces k, k)"
    by (intro convergeLoop_forward) simp_all
  then show "solve g T vs faces = Some (faces', light', k)"
    using a by (simp add: solve_def lightAfter_def)
qed

text \<open>
  Claim C3, as amended. The loop returns after \<open>k\<close> iterations exactly when \<open>k\<close> is the
  first iteration whose relative change \<open>|previous / new - 1|\<close> of the area-weighted total
  is not above \<open>0.001\<close>: at or below it, or NaN. The total entering the first iteration
  is zero, so when the first total is neither zero nor NaN the first relative change
  is exactly \<open>1\<close> and the loop runs at least two iterations.
\<close>

theorem convergence_loop_stops:
  "(solve g T vs faces = Some (faces', light', k) \<longleftrightarrow>
      0 < k \<and> faces' = iterations k faces T \<and> light' = lightAfter g T vs faces k \<and>
      (relChangeAt g T vs faces k \<le> CONVERGENCE_TARGET \<or> relChangeAt g T vs faces k = NaN) \<and>
      (\<forall>j. 0 < j \<and> j < k \<longrightarrow> relChangeAt g T vs faces j > CONVERGENCE_TARGET)) \<and>
   (lightAfter g T vs faces 1 \<noteq> Fin 0 \<and> lightAfter g T vs faces 1 \<noteq> NaN \<longrightarrow>
      relChangeAt g T vs faces 1 = Fin 1 \<and>
      (solve g T vs faces = Some (faces', light', k) \<longrightarrow> 2 \<le> k))"
proof (intro conjI impI)
  show "solve g T vs faces = Some (faces', light', k) \<longleftrightarrow>
      0 < k \<and> faces' = iterations k faces T \<and> light' = lightAfter g T vs faces k \<and>
      (relChangeAt g T vs faces k \<le> CONVERGENCE_TARGET \<or> relChangeAt g T vs faces k = NaN) \<and>
      (\<forall>j. 0 < j \<and> j < k \<longrightarrow> relChangeAt g T vs faces j > CONVERGENCE_TARGET)"
    unfolding solve_iff CONVERGENCE_TARGET_def not_above_iff ..
next
  assume a: "lightAfter g T vs faces 1 \<noteq> Fin 0 \<and> lightAfter g T vs faces 1 \<noteq> NaN"
  then show one: "relChangeAt g T vs faces 1 = Fin 1"
    using first_relChange by blast
  assume "solve g T vs faces = Some (faces', light', k)"
  then have k: "0 < k" "\<not> relChangeAt g T vs faces k > CONVERGENCE_TARGET"
    by (simp_all add: solve_iff)
  have "k \<noteq> 1"
    using k(2) one by (auto simp: CONVERGENCE_TARGET_def)
  with k(1) show "2 \<le> k" by simp
qed

theorem convergence_loop_stops_witness:
  "lightAfter exampleGeom exampleTransfers cubeVertices [lamp, wall] 1 = Fin (7 / 3) \<and>
   solve exampleGeom exampleTransfers cubeVertices [lamp, wall]
     = Some ([lamp, litWall], Fin (7 / 3), 2) \<and>
   relChangeAt exampleGeom exampleTransfers cubeVertices [lamp, wall] 1 = Fin 1 \<and>
   relChangeAt exampleGeom exampleTransfers cubeVertices [lamp, wall] 2 = Fin 0"
proof -
  have s0: "{0..<Suc (Suc 0)} - {0} = {Suc 0}" and s1: "{0..<Suc (Suc 0)} - {Suc 0} = {0}"
    by auto
  have it: "iterateLighting [lamp, wall] exampleTransfers = [lamp, litWall]"
    "iterateLighting [lamp, litWall] exampleTransfers = [lamp, litWall]"
    by (simp_all add: iterateLighting_eq exampleTransfers_def lamp_def wall_def litWall_def s0 s1
        scaleC_def times_Colour_def plus_Colour_def zero_Colour_def upt_rec [of 0] upt_rec [of 1])
  have cl: "calcLight exampleGeom [lamp, litWall] cubeVertices = Fin (7 / 3)"
    by (simp add: calcLight_def exampleGeom_def edgeCross_def cubeVertices_def lamp_def wall_def
        litWall_def floorIdx_def ceilingIdx_def len_def dot_def cross_def minus_Vertex_def
        minus_double_def)
  have l1: "lightAfter exampleGeom exampleTransfers cubeVertices [lamp, wall] 1 = Fin (7 / 3)"
    and l2: "lightAfter exampleGeom exampleTransfers cubeVertices [lamp, wall] 2 = Fin (7 / 3)"
    by (simp_all add: lightAfter_def it cl numeral_2_eq_2)
  have r2: "relChangeAt exampleGeom exampleTransfers cubeVertices [lamp, wall] 2 = Fin 0"
    using l1 l2 by (simp add: relChangeAt_def minus_double_def)
  have ne: "lightAfter exampleGeom exampleTransfers cubeVertices [lamp, wall] 1 \<noteq> Fin 0 \<and>
            lightAfter exampleGeom exampleTransfers cubeVertices [lamp, wall] 1 \<noteq> NaN"
    unfolding l1 by simp
  note th = convergence_loop_stops [of exampleGeom exampleTransfers cubeVertices "[lamp, wall]"
      "[lamp, litWall]" "Fin (7 / 3)" 2]
  from th [THEN conjunct2, rule_format, OF ne]
  have r1: "relChangeAt exampleGeom exampleTransfers cubeVertices [lamp, wall] 1 = Fin 1"
    by (rule conjunct1)
  have "solve exampleGeom exampleTransfers cubeVertices [lamp, wall]
          = Some ([lamp, litWall], Fin (7 / 3), 2)"
  proof (rule th [THEN conjunct1, THEN iffD2], intro conjI allI impI)
    fix j :: nat assume "0 < j \<and> j < 2"
    then have "j = 1" by simp
    then show "CONVERGENCE_TARGET < relChangeAt exampleGeom exampleTransfers cubeVertices [lamp, wall] j"
      using r1 by (simp add: CONVERGENCE_TARGET_def)
  qed (insert it l2 r2, simp_all add: numeral_2_eq_2 CONVERGENCE_TARGET_def)
  with l1 r1 r2 show ?thesis by simp
qed

text \<open>
  The claim as stated fails on a scene without light, a single black non-emitter: the
  first total is \<open>0\<close>, the relative change is \<^verbatim>\<open>fabs(0.0 / 0.0 - 1.0)\<close>, NaN, the
  comparison with the threshold is false and the loop stops after one iteration.
\<close>

theorem unlit_scene_one_iteration:
  "solve exampleGeom [Fin 0] cubeVertices [wall] = Some ([wall], Fin 0, 1)"
  by (simp add: solve_def convergeLoop.simps solverStep_def iterateLighting_def calcLight_def
      CONVERGENCE_TARGET_def exampleGeom_def edgeCross_def cubeVertices_def wall_def floorIdx_def
      Let_def len_def dot_def cross_def minus_Vertex_def minus_double_def
      zero_Colour_def times_Colour_def)


subsection \<open>Rounding to double precision\<close>

lemma binade_bounds:
  assumes "x \<noteq> 0"
  shows "2 powr of_int (binade x) \<le> \<bar>x\<bar>" and "\<bar>x\<bar> < 2 powr (of_int (binade x) + 1)"
proof -
  have p: "0 < \<bar>x\<bar>" using assms by simp
  have "of_int (binade x) \<le> log 2 \<bar>x\<bar>" by (simp add: binade_def)
  then show "2 powr of_int (binade x) \<le> \<bar>x\<bar>"
    using p by (simp add: le_log_iff)
  have "log 2 \<bar>x\<bar> < of_int (binade x) + 1" by (simp add: binade_def)
  then show "\<bar>x\<bar> < 2 powr (of_int (binade x) + 1)"
    using p by (simp add: log_less_iff)
qed

lemma binade_eqI:
  assumes "2 powr of_int e \<le> \<bar>x\<bar>" and "\<bar>x\<bar> < 2 powr (of_int e + 1)"
  shows "binade x = e"
proof -
  have p: "0 < \<bar>x\<bar>"
    using assms(1) by (rule less_le_trans [rotated]) simp
  have "of_int e \<le> log 2 \<bar>x\<bar>" using assms(1) p by (simp add: le_log_iff)
  moreover have "log 2 \<bar>x\<bar> < of_int e + 1" using assms(2) p by (simp add: log_less_iff)
  ultimately show ?thesis unfolding binade_def by (simp add: floor_unique)
qed

lemma rne_of_int: "rne (of_int k) = k"
  by (simp add: rne_def Let_def powr_neg_numeral)

lemma rne_err: "\<bar>of_int (rne m) - m\<bar> \<le> 1 / 2"
  unfolding rne_def Let_def by (auto simp: abs_if) linarith+

lemma rne_mono:
  assumes "a \<le> b"
  shows "rne a \<le> rne b"
proof (cases "\<lfloor>a\<rfloor> = \<lfloor>b\<rfloor>")
  case True
  then show ?thesis using assms unfolding rne_def Let_def by auto
next
  case False
  then have "\<lfloor>a\<rfloor> < \<lfloor>b\<rfloor>" using floor_mono [OF assms] by simp
  then have "\<lfloor>a\<rfloor> + 1 \<le> \<lfloor>b\<rfloor>" by simp
  moreover have "rne a \<le> \<lfloor>a\<rfloor> + 1" unfolding rne_def Let_def by auto
  moreover have "\<lfloor>b\<rfloor> \<le> rne b" unfolding rne_def Let_def by auto
  ultimately show ?thesis by linarith
qed

lemma rne_minus: "rne (- m) = - rne m"
proof (cases "m \<in> \<int>")
  case True
  then obtain k where "m = of_int k" by (auto elim: Ints_cases)
  then show ?thesis using rne_of_int [of "- k"] rne_of_int [of k] by simp
next
  case False
  then have "of_int \<lfloor>m\<rfloor> \<noteq> m"
    by (metis Ints_of_int)
  then have f: "\<lfloor>- m\<rfloor> = - \<lfloor>m\<rfloor> - 1"
    by (simp add: ceiling_altdef floor_minus)
  show ?thesis unfolding rne_def Let_def f by auto
qed

lemma binade_minus: "binade (- x) = binade x"
  by (simp add: binade_def)

lemma round64_zero: "round64 0 = 0"
  by (simp add: round64_def Let_def)

lemma round64_minus: "round64 (- x) = - round64 x"
  by (simp add: round64_def binade_minus Let_def rne_minus)

lemma binade_mono:
  assumes "0 < x" and "x \<le> y"
  shows "binade x \<le> binade y"
  unfolding binade_def using assms by (intro floor_mono) simp

lemma two_powr_52: "2 ^ 52 * 2 powr (e - 52) = (2::real) powr e"
proof -
  have "(2::real) powr 52 * 2 powr (e - 52) = 2 powr (52 + (e - 52))"
    by (simp only: powr_add)
  then show ?thesis by simp
qed

lemma two_powr_53: "2 ^ 53 * 2 powr (e - 52) = (2::real) powr (e + 1)"
proof -
  have "(2::real) powr 53 * 2 powr (e - 52) = 2 powr (53 + (e - 52))"
    by (simp only: powr_add)
  then show ?thesis by (simp add: add.commute)
qed

lemma mantissa_bounds:
  assumes "0 < x"
  shows "2 ^ 52 \<le> x / 2 powr (of_int (binade x) - 52)"
    and "x / 2 powr (of_int (binade x) - 52) < 2 ^ 53"
proof -
  let ?e = "of_int (binade x) :: real"
  have x: "x \<noteq> 0" "\<bar>x\<bar> = x" using assms by simp_all
  have u: "0 < 2 powr (?e - 52)" by simp
  have "2 ^ 52 * 2 powr (?e - 52) \<le> x"
    using binade_bounds(1) [OF x(1)] x(2) by (simp only: two_powr_52)
  then show "2 ^ 52 \<le> x / 2 powr (?e - 52)"
    using u by (simp add: le_divide_eq)
  have "x < 2 ^ 53 * 2 powr (?e - 52)"
    using binade_bounds(2) [OF x(1)] x(2) by (simp only: two_powr_53)
  then show "x / 2 powr (?e - 52) < 2 ^ 53"
    using u by (simp add: divide_less_eq)
qed

lemma round64_pos_bounds:
  assumes "0 < x"
  shows "2 powr of_int (binade x) \<le> round64 x"
    and "round64 x \<le> 2 powr (of_int (binade x) + 1)"
proof -
  let ?e = "of_int (binade x) :: real"
  let ?u = "2 powr (?e - 52) :: real"
  have r: "round64 x = of_int (rne (x / ?u)) * ?u"
    using assms by (simp add: round64_def Let_def)
  have "rne (of_int (2 ^ 52)) \<le> rne (x / ?u)"
    using mantissa_bounds(1) [OF assms] by (intro rne_mono) simp
  then have "(2 ^ 52 :: int) \<le> rne (x / ?u)"
    by (simp only: rne_of_int)
  then have "(of_int (2 ^ 52) :: real) \<le> of_int (rne (x / ?u))"
    by (simp only: of_int_le_iff)
  then have "2 ^ 52 * ?u \<le> of_int (rne (x / ?u)) * ?u"
    by (intro mult_right_mono) simp_all
  then show "2 powr ?e \<le> round64 x"
    by (simp only: two_powr_52 r)
  have "rne (x / ?u) \<le> rne (of_int (2 ^ 53))"
    using mantissa_bounds(2) [OF assms] by (intro rne_mono) simp
  then have "rne (x / ?u) \<le> (2 ^ 53 :: int)"
    by (simp only: rne_of_int)
  then have "(of_int (rne (x / ?u)) :: real) \<le> of_int (2 ^ 53)"
    by (simp only: of_int_le_iff)
  then have "of_int (rne (x / ?u)) * ?u \<le> 2 ^ 53 * ?u"
    by (intro mult_right_mono) simp_all
  then show "round64 x \<le> 2 powr (?e + 1)"
    by (simp only: two_powr_53 r)
qed

lemma round64_pos:
  assumes "0 < x"
  shows "0 < round64 x"
proof -
  have "(0::real) < 2 powr of_int (binade x)" by simp
  with round64_pos_bounds(1) [OF assms] show ?thesis by linarith
qed

lemma round64_mono_pos:
  assumes "0 < x" and "x \<le> y"
  shows "round64 x \<le> round64 y"
proof (cases "binade x = binade y")
  case True
  let ?u = "2 powr (of_int (binade y) - 52) :: real"
  have "x / ?u \<le> y / ?u"
    using assms(2) by (simp add: divide_right_mono)
  then have "rne (x / ?u) \<le> rne (y / ?u)"
    by (rule rne_mono)
  then have "of_int (rne (x / ?u)) * ?u \<le> of_int (rne (y / ?u)) * ?u"
    by (intro mult_right_mono) simp_all
  then show ?thesis
    using assms True by (simp add: round64_def Let_def)
next
  case False
  then have "binade x + 1 \<le> binade y"
    using binade_mono [OF assms] by simp
  then have "(of_int (binade x) + 1 :: real) \<le> of_int (binade y)"
    by linarith
  then have "(2::real) powr (of_int (binade x) + 1) \<le> 2 powr of_int (binade y)"
    by (intro powr_mono) simp_all
  moreover have "0 < y" using assms by simp
  ultimately show ?thesis
    using round64_pos_bounds(2) [OF assms(1)] round64_pos_bounds(1) [of y] by linarith
qed

lemma round64_mono:
  assumes "x \<le> y"
  shows "round64 x \<le> round64 y"
proof -
  consider "0 < x" | "x = 0" "y = 0" | "x = 0" "0 < y" | "x < 0" "0 < y" | "x < 0" "y = 0"
    | "x < 0" "y < 0"
    using assms by linarith
  then show ?thesis
  proof cases
    case 1
    then show ?thesis using assms by (rule round64_mono_pos)
  next
    case 2
    then show ?thesis by simp
  next
    case 3
    then show ?thesis using round64_pos [of y] by (simp add: round64_zero)
  next
    case 4
    then show ?thesis
      using round64_pos [of y] round64_pos [of "- x"] by (simp add: round64_minus)
  next
    case 5
    then show ?thesis
      using round64_pos [of "- x"] by (simp add: round64_minus round64_zero)
  next
    case 6
    then have "round64 (- y) \<le> round64 (- x)"
      using assms by (intro round64_mono_pos) simp_all
    then show ?thesis by (simp add: round64_minus)
  qed
qed

lemma round64_err: "\<bar>round64 x - x\<bar> \<le> \<bar>x\<bar> / 2 ^ 53"
proof (cases "x = 0")
  case True
  then show ?thesis by (simp add: round64_zero)
next
  case False
  let ?e = "of_int (binade x) :: real"
  let ?u = "2 powr (?e - 52) :: real"
  have u: "0 < ?u" by simp
  have "round64 x - x = (of_int (rne (x / ?u)) - x / ?u) * ?u"
    using False by (simp add: round64_def Let_def left_diff_distrib)
  then have "\<bar>round64 x - x\<bar> = \<bar>of_int (rne (x / ?u)) - x / ?u\<bar> * ?u"
    by (simp add: abs_mult)
  also have "\<dots> \<le> 1 / 2 * ?u"
    by (intro mult_right_mono rne_err) simp
  also have "1 / 2 * ?u = 2 powr ?e / 2 ^ 53"
    by (simp add: powr_diff)
  also have "\<dots> \<le> \<bar>x\<bar> / 2 ^ 53"
    using binade_bounds(1) [OF False] by (simp add: divide_right_mono)
  finally show ?thesis .
qed

lemma round64_idem_pos:
  assumes "0 < x"
  shows "round64 (round64 x) = round64 x"
proof -
  let ?e = "of_int (binade x) :: real"
  let ?u = "2 powr (?e - 52) :: real"
  let ?k = "rne (x / ?u)"
  have r: "round64 x = of_int ?k * ?u"
    using assms by (simp add: round64_def Let_def)
  have p: "0 < round64 x" using assms by (rule round64_pos)
  have lo: "2 powr ?e \<le> round64 x" and hi: "round64 x \<le> 2 powr (?e + 1)"
    using round64_pos_bounds [OF assms] by simp_all
  show ?thesis
  proof (cases "round64 x = 2 powr (?e + 1)")
    case True
    have b: "binade (round64 x) = binade x + 1"
      unfolding True by (rule binade_eqI) (simp_all add: algebra_simps)
    have "2 powr (?e + 1) / 2 powr (?e + 1 - 52) = of_int (2 ^ 52)"
      by (simp flip: powr_diff)
    then have "rne (2 powr (?e + 1) / 2 powr (?e + 1 - 52)) = 2 ^ 52"
      by (simp only: rne_of_int)
    then have "round64 (2 powr (?e + 1)) = 2 ^ 52 * 2 powr (?e + 1 - 52)"
      using b unfolding True by (simp add: round64_def Let_def)
    also have "\<dots> = 2 powr (?e + 1)"
      by (rule two_powr_52)
    finally show ?thesis by (simp add: True)
  next
    case False
    then have "round64 x < 2 powr (?e + 1)" using hi by simp
    with lo p have b: "binade (round64 x) = binade x"
      by (intro binade_eqI) simp_all
    have "round64 x / ?u = of_int ?k"
      by (simp add: r)
    then have "rne (round64 x / ?u) = ?k"
      by (simp only: rne_of_int)
    then show ?thesis
      using p b r by (simp add: round64_def Let_def)
  qed
qed

lemma round64_idem: "round64 (round64 x) = round64 x"
proof -
  consider "0 < x" | "x = 0" | "x < 0" by linarith
  then show ?thesis
  proof cases
    case 1
    then show ?thesis by (rule round64_idem_pos)
  next
    case 2
    then show ?thesis by (simp add: round64_zero)
  next
    case 3
    then have "round64 (round64 (- x)) = round64 (- x)"
      by (intro round64_idem_pos) simp
    then show ?thesis by (simp add: round64_minus)
  qed
qed

lemma round64_eval:
  assumes "2 powr of_int e \<le> \<bar>x\<bar>" and "\<bar>x\<bar> < 2 powr (of_int e + 1)"
  shows "round64 x = of_int (rne (x / 2 powr (of_int e - 52))) * 2 powr (of_int e - 52)"
proof -
  have "0 < \<bar>x\<bar>"
    using assms(1) by (rule less_le_trans [rotated]) simp
  then have "x \<noteq> 0" by simp
  then show ?thesis
    by (simp add: round64_def Let_def binade_eqI [OF assms])
qed

lemma round64_one: "round64 1 = 1"
  using round64_eval [of 0 1] by (simp add: rne_def Let_def powr_neg_numeral)

lemma round64_below_one: "round64 (1 - 1 / 2 ^ 53) = 1 - 1 / 2 ^ 53"
  using round64_eval [of "- 1" "1 - 1 / 2 ^ 53"] by (simp add: rne_def Let_def powr_neg_numeral)

lemma round64_above_one: "round64 (1 + 1 / 2 ^ 53) = 1"
  using round64_eval [of 0 "1 + 1 / 2 ^ 53"] by (simp add: rne_def Let_def powr_neg_numeral)

lemma round64_recip:
  assumes "0 < a"
  shows "1 - 1 / 2 ^ 53 \<le> round64 (a * round64 (1 / a))"
    and "round64 (a * round64 (1 / a)) \<le> 1"
proof -
  let ?s = "round64 (1 / a)"
  have "a * ?s - 1 = a * (?s - 1 / a)"
    using assms by (simp add: right_diff_distrib)
  then have "\<bar>a * ?s - 1\<bar> = a * \<bar>?s - 1 / a\<bar>"
    using assms by (simp add: abs_mult)
  also have "\<dots> \<le> a * (\<bar>1 / a\<bar> / 2 ^ 53)"
    using assms by (intro mult_left_mono round64_err) simp
  also have "\<dots> = 1 / 2 ^ 53"
    using assms by simp
  finally have "\<bar>a * ?s - 1\<bar> \<le> 1 / 2 ^ 53" .
  then have b: "1 - 1 / 2 ^ 53 \<le> a * ?s" "a * ?s \<le> 1 + 1 / 2 ^ 53"
    by linarith+
  from round64_mono [OF b(1)] show "1 - 1 / 2 ^ 53 \<le> round64 (a * ?s)"
    by (simp only: round64_below_one)
  from round64_mono [OF b(2)] show "round64 (a * ?s) \<le> 1"
    by (simp only: round64_above_one)
qed


subsection \<open>The brightness normaliser\<close>

lemma times_one_double: "(a::double) * Fin 1 = a"
  by (cases a) simp_all

lemma rnd_idem: "rnd (rnd a) = rnd a"
  by (cases a) (simp_all add: round64_idem)

lemma isdouble_fl_times: "isdouble (fl_times a b)"
  by (simp add: isdouble_def fl_times_def rnd_idem)

lemma fl_times_one: "isdouble a \<Longrightarrow> fl_times a (Fin 1) = a"
  by (simp add: fl_times_def times_one_double isdouble_def)

lemma fl_times_pinf: "fl_times a PInf = a * PInf"
  by (cases a) (simp_all add: fl_times_def)

lemma fl_divide_fin: "a \<noteq> 0 \<Longrightarrow> fl_divide (Fin 1) (Fin a) = Fin (round64 (1 / a))"
  by (simp add: fl_divide_def)

lemma fl_divide_zero: "fl_divide (Fin 1) (Fin 0) = PInf"
  by (simp add: fl_divide_def)

lemma rescale_one:
  assumes "isdouble (cr (screenColour q))" and "isdouble (cg (screenColour q))"
    and "isdouble (cb (screenColour q))"
  shows "rescale (Fin 1) q = q"
  using assms by (simp add: rescale_def scaleC_fl_def fl_times_one)

lemma rescale_one_all: "doubleColours qs \<Longrightarrow> map (rescale (Fin 1)) qs = qs"
  by (induction qs) (simp_all add: doubleColours_def rescale_one)

lemma rescale_one_rescale: "rescale (Fin 1) (rescale s q) = rescale s q"
  by (simp add: rescale_def scaleC_fl_def fl_times_one isdouble_fl_times)

lemma rescale_one_rescale_all: "map (rescale (Fin 1)) (map (rescale s) qs) = map (rescale s) qs"
  by (simp add: rescale_one_rescale)

lemma facesUs_ignores_colour:
  "geomIgnoresColour g \<Longrightarrow> facesUs g cam (q\<lparr>screenColour := c\<rparr>) vs = facesUs g cam q vs"
  by (simp add: geomIgnoresColour_def facesUs_def)

text \<open>The running maximum starts at zero and never decreases.\<close>

lemma std_max_range:
  assumes "(\<exists>a\<ge>0. mx = Fin a) \<or> mx = PInf"
  shows "((\<exists>a\<ge>0. std_max mx x = Fin a) \<or> std_max mx x = PInf) \<and> mx \<le> std_max mx x"
  using assms by (cases x) (auto simp: std_max_def)

lemma std_max3_range:
  assumes "(\<exists>a\<ge>0. mx = Fin a) \<or> mx = PInf"
  shows "((\<exists>a\<ge>0. std_max (std_max (std_max mx x) y) z = Fin a)
          \<or> std_max (std_max (std_max mx x) y) z = PInf)
         \<and> mx \<le> std_max (std_max (std_max mx x) y) z"
proof -
  note 1 = std_max_range [OF assms, of x]
  note 2 = std_max_range [OF 1 [THEN conjunct1], of y]
  note 3 = std_max_range [OF 2 [THEN conjunct1], of z]
  have "mx \<le> std_max (std_max (std_max mx x) y) z"
    using 1 2 3 assms
    by (cases mx; cases "std_max mx x"; cases "std_max (std_max mx x) y";
        cases "std_max (std_max (std_max mx x) y) z") auto
  with 3 show ?thesis by blast
qed

lemma scan_range:
  assumes "(\<exists>a\<ge>0. mx = Fin a) \<or> mx = PInf"
  shows "((\<exists>a\<ge>0. fold (scanStep g cam vs) qs mx = Fin a) \<or> fold (scanStep g cam vs) qs mx = PInf)
         \<and> mx \<le> fold (scanStep g cam vs) qs mx"
  using assms
proof (induction qs arbitrary: mx)
  case Nil
  then show ?case by auto
next
  case (Cons q qs)
  have s: "((\<exists>a\<ge>0. scanStep g cam vs q mx = Fin a) \<or> scanStep g cam vs q mx = PInf)
           \<and> mx \<le> scanStep g cam vs q mx"
    using std_max3_range [OF Cons.prems] Cons.prems by (auto simp: scanStep_def)
  note ih = Cons.IH [OF s [THEN conjunct1]]
  have "mx \<le> fold (scanStep g cam vs) qs (scanStep g cam vs q mx)"
    using s ih Cons.prems
    by (cases mx; cases "scanStep g cam vs q mx";
        cases "fold (scanStep g cam vs) qs (scanStep g cam vs q mx)") auto
  with ih show ?case by simp
qed

lemma visibleMax_range:
  "(\<exists>a\<ge>0. visibleMax g cam qs vs = Fin a) \<or> visibleMax g cam qs vs = PInf"
  unfolding visibleMax_def
  by (rule scan_range [THEN conjunct1]) simp

text \<open>
  Scaling by a positive finite factor commutes with the scan, because rounding is
  monotone.
\<close>

lemma fl_times_mono:
  assumes "0 < s" and "a \<le> b"
  shows "round64 (a * s) \<le> round64 (b * s)"
  using assms by (intro round64_mono mult_right_mono) simp_all

lemma std_max_scale:
  assumes "0 < s"
  shows "std_max (fl_times mx (Fin s)) (fl_times x (Fin s)) = fl_times (std_max mx x) (Fin s)"
proof (cases mx)
  case (Fin a)
  show ?thesis
  proof (cases x)
    case (Fin b)
    show ?thesis
    proof (cases "a < b")
      case True
      then have "round64 (a * s) \<le> round64 (b * s)"
        using fl_times_mono [OF assms, of a b] by simp
      then show ?thesis
        using True \<open>mx = Fin a\<close> \<open>x = Fin b\<close> by (auto simp: std_max_def fl_times_def)
    next
      case False
      then have "round64 (b * s) \<le> round64 (a * s)"
        using fl_times_mono [OF assms, of b a] by simp
      then show ?thesis
        using False \<open>mx = Fin a\<close> \<open>x = Fin b\<close> by (auto simp: std_max_def fl_times_def)
    qed
  qed (use Fin assms in \<open>auto simp: std_max_def fl_times_def\<close>)
qed (cases x; use assms in \<open>auto simp: std_max_def fl_times_def\<close>)+

lemma scanStep_rescale:
  assumes "geomIgnoresColour g" and "0 < s"
  shows "scanStep g cam vs (rescale (Fin s) q) (fl_times mx (Fin s))
         = fl_times (scanStep g cam vs q mx) (Fin s)"
  using assms
  by (simp add: scanStep_def rescale_def facesUs_ignores_colour scaleC_fl_def std_max_scale)

lemma scan_rescale:
  assumes "geomIgnoresColour g" and "0 < s"
  shows "fold (scanStep g cam vs) (map (rescale (Fin s)) qs) (fl_times mx (Fin s))
         = fl_times (fold (scanStep g cam vs) qs mx) (Fin s)"
  by (induction qs arbitrary: mx) (simp_all add: scanStep_rescale [OF assms])

lemma visibleMax_rescale:
  assumes "geomIgnoresColour g" and "0 < s"
  shows "visibleMax g cam (map (rescale (Fin s)) qs) vs = fl_times (visibleMax g cam qs vs) (Fin s)"
proof -
  have "fl_times (Fin 0) (Fin s) = Fin 0"
    by (simp add: fl_times_def round64_zero)
  with scan_rescale [OF assms, of cam vs qs "Fin 0"] show ?thesis
    by (simp add: visibleMax_def)
qed

text \<open>A scan that ends at zero stays at zero when every colour is scaled by \<open>+\<infinity>\<close>.\<close>

lemma std_max_zero_pinf:
  "std_max (Fin 0) x = Fin 0 \<Longrightarrow> std_max (Fin 0) (fl_times x PInf) = Fin 0"
  by (cases x) (auto simp: std_max_def fl_times_pinf split: if_splits)

lemma std_max3_zero:
  assumes "std_max (std_max (std_max (Fin 0) x) y) z = Fin 0"
  shows "std_max (Fin 0) x = Fin 0 \<and> std_max (Fin 0) y = Fin 0 \<and> std_max (Fin 0) z = Fin 0"
  using assms by (cases x; cases y; cases z) (auto simp: std_max_def split: if_splits)

lemma scanStep_zero_pinf:
  assumes "geomIgnoresColour g" and "scanStep g cam vs q (Fin 0) = Fin 0"
  shows "scanStep g cam vs (rescale PInf q) (Fin 0) = Fin 0"
proof (cases "\<not> isEmitter q \<and> facesUs g cam q vs")
  case True
  with assms(2) have "std_max (std_max (std_max (Fin 0) (cr (screenColour q)))
      (cg (screenColour q))) (cb (screenColour q)) = Fin 0"
    by (simp add: scanStep_def)
  from std_max3_zero [OF this] show ?thesis
    using True assms(1)
    by (simp add: scanStep_def rescale_def facesUs_ignores_colour scaleC_fl_def std_max_zero_pinf)
next
  case False
  then show ?thesis
    using assms(1) by (auto simp: scanStep_def rescale_def facesUs_ignores_colour)
qed

lemma scan_zero_pinf:
  assumes "geomIgnoresColour g" and "fold (scanStep g cam vs) qs (Fin 0) = Fin 0"
  shows "fold (scanStep g cam vs) (map (rescale PInf) qs) (Fin 0) = Fin 0"
  using assms(2)
proof (induction qs)
  case Nil
  then show ?case by simp
next
  case (Cons q qs)
  let ?m = "scanStep g cam vs q (Fin 0)"
  have z: "(\<exists>a\<ge>0. Fin 0 = Fin a) \<or> Fin 0 = PInf" by simp
  have r: "((\<exists>a\<ge>0. ?m = Fin a) \<or> ?m = PInf) \<and> Fin 0 \<le> ?m"
    using scan_range [OF z, of g cam vs "[q]"] by simp
  have "?m \<le> fold (scanStep g cam vs) qs ?m"
    using scan_range [OF r [THEN conjunct1]] by blast
  with Cons.prems r have m0: "?m = Fin 0"
    by (cases ?m) auto
  with Cons.prems have "fold (scanStep g cam vs) qs (Fin 0) = Fin 0" by simp
  from Cons.IH [OF this] show ?case
    by (simp add: scanStep_zero_pinf [OF assms(1) m0])
qed

lemma times_pinf_twice: "(a::double) * PInf * PInf = a * PInf"
  by (cases a) auto

lemma rescale_pinf_twice: "rescale PInf (rescale PInf q) = rescale PInf q"
  by (simp add: rescale_def scaleC_fl_def fl_times_pinf times_pinf_twice)

lemma normalise_cases:
  "normaliseBrightness g cam qs vs =
     map (rescale (if visibleMax g cam qs vs < Fin 1
                   then fl_divide (Fin 1) (visibleMax g cam qs vs) else Fin 1)) qs"
  by (simp add: normaliseBrightness_def Let_def)

lemma normalise_at_target:
  "\<not> visibleMax g cam qs vs < Fin 1 \<Longrightarrow> normaliseBrightness g cam qs vs = map (rescale (Fin 1)) qs"
  by (simp add: normalise_cases)

lemma normalise_below_target:
  assumes "visibleMax g cam qs vs = Fin a" and "0 < a" and "a < 1"
  shows "normaliseBrightness g cam qs vs = map (rescale (Fin (round64 (1 / a)))) qs"
  using assms by (simp add: normalise_cases fl_divide_fin)

lemma normalise_zero:
  assumes "visibleMax g cam qs vs = Fin 0"
  shows "normaliseBrightness g cam qs vs = map (rescale PInf) qs"
  using assms by (simp add: normalise_cases fl_divide_zero)

lemma visibleMax_after_below:
  assumes "geomIgnoresColour g" and "visibleMax g cam qs vs = Fin a" and "0 < a" and "a < 1"
  shows "visibleMax g cam (normaliseBrightness g cam qs vs) vs
         = Fin (round64 (a * round64 (1 / a)))"
proof -
  have "0 < round64 (1 / a)"
    using assms(3) by (intro round64_pos) simp
  from visibleMax_rescale [OF assms(1) this] show ?thesis
    using assms by (simp add: normalise_below_target fl_times_def)
qed

lemma visibleMax_after_at_target:
  assumes "geomIgnoresColour g" and "\<not> visibleMax g cam qs vs < Fin 1"
  shows "\<not> visibleMax g cam (normaliseBrightness g cam qs vs) vs < Fin 1"
proof -
  have "visibleMax g cam (map (rescale (Fin 1)) qs) vs = rnd (visibleMax g cam qs vs)"
    using visibleMax_rescale [OF assms(1), of 1 cam qs vs]
    by (simp add: fl_times_def times_one_double)
  moreover have "\<not> rnd (visibleMax g cam qs vs) < Fin 1"
  proof (cases "visibleMax g cam qs vs")
    case (Fin a)
    with assms(2) have "1 \<le> a" by simp
    from round64_mono [OF this] show ?thesis
      using Fin by (simp add: round64_one)
  qed (use assms(2) in simp_all)
  ultimately show ?thesis
    using assms(2) by (simp add: normalise_at_target)
qed

text \<open>A pass that finds the maximum at or above the target changes nothing that a pass has rounded.\<close>

lemma normalise_fixed:
  assumes "\<not> visibleMax g cam (normaliseBrightness g cam qs vs) vs < Fin 1"
  shows "normaliseBrightness g cam (normaliseBrightness g cam qs vs) vs
         = normaliseBrightness g cam qs vs"
proof -
  have "normaliseBrightness g cam (normaliseBrightness g cam qs vs) vs
        = map (rescale (Fin 1)) (normaliseBrightness g cam qs vs)"
    using assms by (rule normalise_at_target)
  also have "\<dots> = normaliseBrightness g cam qs vs"
    by (simp only: normalise_cases [of g cam qs vs] rescale_one_rescale_all)
  finally show ?thesis .
qed

lemma normalise_idem_zero:
  assumes "geomIgnoresColour g" and "visibleMax g cam qs vs = Fin 0"
  shows "normaliseBrightness g cam (normaliseBrightness g cam qs vs) vs
         = normaliseBrightness g cam qs vs"
proof -
  have "visibleMax g cam (map (rescale PInf) qs) vs = Fin 0"
    using scan_zero_pinf [OF assms(1)] assms(2) by (simp add: visibleMax_def)
  then show ?thesis
    by (simp add: normalise_zero assms(2) rescale_pinf_twice)
qed

lemma exampleGeom_ignores_colour: "geomIgnoresColour exampleGeom"
  by (simp add: geomIgnoresColour_def exampleGeom_def edgeCross_def)

lemma floor_faces_cameraAbove:
  "indices q = floorIdx \<Longrightarrow> facesUs exampleGeom cameraAbove q cubeVertices"
  by (simp add: facesUs_def floor_geometry cameraAbove_def dot_def minus_Vertex_def minus_double_def)

text \<open>The values that the examples round.\<close>

lemma round64_examples:
  "round64 2 = 2" "round64 (1 / 2) = 1 / 2" "round64 (1 / 4) = 1 / 4"
  "round64 (49 / 4096) = 49 / 4096" "round64 (1 / 128) = 1 / 128"
  using round64_eval [of 1 2] round64_eval [of "- 1" "1 / 2"] round64_eval [of "- 2" "1 / 4"]
    round64_eval [of "- 7" "49 / 4096"] round64_eval [of "- 7" "1 / 128"]
  by (simp_all add: rne_def Let_def powr_neg_numeral)

lemma round64_dim_factor: "round64 (4096 / 49) = 5882252574524729 / 70368744177664"
  using round64_eval [of 6 "4096 / 49"] by (simp add: rne_def Let_def powr_neg_numeral)

lemma round64_dim_red:
  "round64 (49 / 4096 * (5882252574524729 / 70368744177664)) = 1 - 1 / 2 ^ 53"
  using round64_eval [of "- 1" "49 / 4096 * (5882252574524729 / 70368744177664)"]
  by (simp add: rne_def Let_def powr_neg_numeral)

lemma round64_dim_green:
  "round64 (1 / 128 * (5882252574524729 / 70368744177664))
   = 5882252574524729 / 9007199254740992"
  using round64_eval [of "- 1" "1 / 128 * (5882252574524729 / 70368744177664)"]
  by (simp add: rne_def Let_def powr_neg_numeral)

lemma round64_second_factor: "round64 (1 / (1 - 1 / 2 ^ 53)) = 1 + 1 / 2 ^ 52"
  using round64_eval [of 0 "1 / (1 - 1 / 2 ^ 53)"]
  by (simp add: rne_def Let_def powr_neg_numeral)

lemma round64_second_red: "round64 ((1 - 1 / 2 ^ 53) * (1 + 1 / 2 ^ 52)) = 1"
  using round64_eval [of 0 "(1 - 1 / 2 ^ 53) * (1 + 1 / 2 ^ 52)"]
  by (simp add: rne_def Let_def powr_neg_numeral)

lemma round64_second_green:
  "round64 (5882252574524729 / 9007199254740992 * (1 + 1 / 2 ^ 52))
   = 2941126287262365 / 4503599627370496"
  using round64_eval [of "- 1" "5882252574524729 / 9007199254740992 * (1 + 1 / 2 ^ 52)"]
  by (simp add: rne_def Let_def powr_neg_numeral)

text \<open>
  A rounded number between \<open>1 - 1 / 2 ^ 53\<close> and \<open>1\<close> is one of the two: they are
  neighbours among the doubles.
\<close>

lemma round64_near_one:
  assumes "1 - 1 / 2 ^ 53 \<le> round64 z" and "round64 z \<le> 1"
  shows "round64 z = 1 - 1 / 2 ^ 53 \<or> round64 z = 1"
proof (cases "round64 z = 1")
  case False
  let ?w = "round64 z"
  have w: "1 - 1 / 2 ^ 53 \<le> ?w" "?w < 1" using assms False by simp_all
  have "2 powr of_int (- 1) \<le> \<bar>?w\<bar>" "\<bar>?w\<bar> < 2 powr (of_int (- 1) + 1)"
    using w by (simp_all add: powr_neg_numeral)
  from round64_eval [OF this] have e: "?w = of_int (rne (?w * 2 ^ 53)) / 2 ^ 53"
    by (simp add: round64_idem powr_neg_numeral)
  have "rne (of_int (2 ^ 53 - 1)) \<le> rne (?w * 2 ^ 53)"
    using w(1) by (intro rne_mono) simp
  then have lo: "2 ^ 53 - 1 \<le> rne (?w * 2 ^ 53)"
    by (simp only: rne_of_int)
  have "rne (?w * 2 ^ 53) \<le> rne (of_int (2 ^ 53))"
    using w(2) by (intro rne_mono) simp
  then have hi: "rne (?w * 2 ^ 53) \<le> 2 ^ 53"
    by (simp only: rne_of_int)
  have "rne (?w * 2 ^ 53) \<noteq> 2 ^ 53"
  proof
    assume "rne (?w * 2 ^ 53) = 2 ^ 53"
    with e have "?w = 1" by simp
    with False show False by simp
  qed
  with lo hi have "rne (?w * 2 ^ 53) = 2 ^ 53 - 1" by linarith
  with e have "?w = of_int (2 ^ 53 - 1) / 2 ^ 53" by simp
  then show ?thesis by simp
qed simp

lemma recip_near_one:
  assumes "0 < a"
  shows "round64 (a * round64 (1 / a)) = 1 - 1 / 2 ^ 53 \<or> round64 (a * round64 (1 / a)) = 1"
  using round64_recip [OF assms] by (rule round64_near_one)

lemma not_below_target_iff:
  "(\<not> visibleMax g cam qs vs < Fin 1) = (Fin 1 \<le> visibleMax g cam qs vs)"
  using visibleMax_range [of g cam qs vs] by (cases "visibleMax g cam qs vs") auto

lemma visibleMax_cases:
  obtains (top) "\<not> visibleMax g cam qs vs < Fin 1"
  | (mid) a where "visibleMax g cam qs vs = Fin a" "0 < a" "a < 1"
  | (zero) "visibleMax g cam qs vs = Fin 0"
  using visibleMax_range [of g cam qs vs] by (cases "visibleMax g cam qs vs") force+

lemma visibleMax_after_two:
  assumes "geomIgnoresColour g" and "visibleMax g cam qs vs = Fin a" and "0 < a" and "a < 1"
    and "round64 (a * round64 (1 / a)) < 1"
  shows "visibleMax g cam
           (normaliseBrightness g cam (normaliseBrightness g cam qs vs) vs) vs = Fin 1"
proof -
  have "round64 (a * round64 (1 / a)) = 1 - 1 / 2 ^ 53"
    using recip_near_one [OF assms(3)] assms(5) by simp
  then have m: "visibleMax g cam (normaliseBrightness g cam qs vs) vs = Fin (1 - 1 / 2 ^ 53)"
    using visibleMax_after_below [OF assms(1-4)] by simp
  have "(0::real) < 1 - 1 / 2 ^ 53" "(1::real) - 1 / 2 ^ 53 < 1" by simp_all
  from visibleMax_after_below [OF assms(1) m this] show ?thesis
    by (simp only: round64_second_factor round64_second_red)
qed

lemma normalise_idem_iff:
  assumes "geomIgnoresColour g"
  shows "(normaliseBrightness g cam (normaliseBrightness g cam qs vs) vs
            = normaliseBrightness g cam qs vs)
         = (Fin 1 \<le> visibleMax g cam (normaliseBrightness g cam qs vs) vs
            \<or> visibleMax g cam qs vs = Fin 0)"
proof (cases rule: visibleMax_cases [of g cam qs vs])
  case top
  from visibleMax_after_at_target [OF assms this]
  have t: "\<not> visibleMax g cam (normaliseBrightness g cam qs vs) vs < Fin 1" .
  from normalise_fixed [OF t] t show ?thesis
    by (simp add: not_below_target_iff)
next
  case (mid a)
  let ?m = "round64 (a * round64 (1 / a))"
  have m: "visibleMax g cam (normaliseBrightness g cam qs vs) vs = Fin ?m"
    by (rule visibleMax_after_below [OF assms mid])
  show ?thesis
  proof (cases "?m < 1")
    case True
    have "visibleMax g cam (normaliseBrightness g cam (normaliseBrightness g cam qs vs) vs) vs
          \<noteq> visibleMax g cam (normaliseBrightness g cam qs vs) vs"
      using visibleMax_after_two [OF assms mid True] m True by simp
    then have "normaliseBrightness g cam (normaliseBrightness g cam qs vs) vs
               \<noteq> normaliseBrightness g cam qs vs"
      by auto
    then show ?thesis
      using m True mid by simp
  next
    case False
    then have t: "\<not> visibleMax g cam (normaliseBrightness g cam qs vs) vs < Fin 1"
      using m by simp
    from normalise_fixed [OF t] t show ?thesis
      by (simp add: not_below_target_iff)
  qed
next
  case zero
  from normalise_idem_zero [OF assms zero] zero show ?thesis by simp
qed

lemma normalise_three:
  assumes "geomIgnoresColour g"
  shows "normaliseBrightness g cam
           (normaliseBrightness g cam (normaliseBrightness g cam qs vs) vs) vs
         = normaliseBrightness g cam (normaliseBrightness g cam qs vs) vs"
proof (cases "normaliseBrightness g cam (normaliseBrightness g cam qs vs) vs
              = normaliseBrightness g cam qs vs")
  case True
  then show ?thesis by simp
next
  case False
  then have n: "\<not> Fin 1 \<le> visibleMax g cam (normaliseBrightness g cam qs vs) vs"
    and nz: "visibleMax g cam qs vs \<noteq> Fin 0"
    using normalise_idem_iff [OF assms, of cam qs vs] by simp_all
  from n have b: "visibleMax g cam (normaliseBrightness g cam qs vs) vs < Fin 1"
    using not_below_target_iff [of g cam "normaliseBrightness g cam qs vs" vs] by simp
  show ?thesis
  proof (cases rule: visibleMax_cases [of g cam qs vs])
    case top
    from visibleMax_after_at_target [OF assms this] b show ?thesis by simp
  next
    case (mid a)
    have "round64 (a * round64 (1 / a)) < 1"
      using visibleMax_after_below [OF assms mid] b by simp
    from visibleMax_after_two [OF assms mid this]
    have "\<not> visibleMax g cam
             (normaliseBrightness g cam (normaliseBrightness g cam qs vs) vs) vs < Fin 1"
      by simp
    then show ?thesis by (rule normalise_fixed)
  next
    case zero
    with nz show ?thesis by simp
  qed
qed

text \<open>The three example scenes of the normaliser.\<close>

lemma black_scene:
  "visibleMax exampleGeom cameraAbove [wall] cubeVertices = Fin 0"
  "normaliseBrightness exampleGeom cameraAbove [wall] cubeVertices
     = [wall\<lparr>screenColour := Colour NaN NaN NaN\<rparr>]"
  "visibleMax exampleGeom cameraAbove [wall\<lparr>screenColour := Colour NaN NaN NaN\<rparr>] cubeVertices
     = Fin 0"
proof -
  have f: "facesUs exampleGeom cameraAbove wall cubeVertices"
    "facesUs exampleGeom cameraAbove (wall\<lparr>screenColour := Colour NaN NaN NaN\<rparr>) cubeVertices"
    by (simp_all add: floor_faces_cameraAbove wall_def)
  show m: "visibleMax exampleGeom cameraAbove [wall] cubeVertices = Fin 0"
    using f by (simp add: visibleMax_def scanStep_def wall_def std_max_def)
  show "normaliseBrightness exampleGeom cameraAbove [wall] cubeVertices
     = [wall\<lparr>screenColour := Colour NaN NaN NaN\<rparr>]"
    unfolding normalise_zero [OF m]
    by (simp add: rescale_def scaleC_fl_def fl_times_pinf wall_def)
  show "visibleMax exampleGeom cameraAbove [wall\<lparr>screenColour := Colour NaN NaN NaN\<rparr>]
          cubeVertices = Fin 0"
    using f by (simp add: visibleMax_def scanStep_def wall_def std_max_def)
qed

lemma rescale_fin:
  assumes "\<not> isEmitter q" and "screenColour q = Colour (Fin r) (Fin g) (Fin b)"
  shows "rescale (Fin s) q
         = q\<lparr>screenColour := Colour (Fin (round64 (r * s))) (Fin (round64 (g * s)))
                                  (Fin (round64 (b * s)))\<rparr>"
  using assms by (simp add: rescale_def scaleC_fl_def fl_times_def)

lemma dim_scene:
  "visibleMax exampleGeom cameraAbove [dimWall] cubeVertices = Fin (49 / 4096)"
  "normaliseBrightness exampleGeom cameraAbove [dimWall] cubeVertices = [dimOnce]"
  "visibleMax exampleGeom cameraAbove [dimOnce] cubeVertices = Fin (1 - 1 / 2 ^ 53)"
  "normaliseBrightness exampleGeom cameraAbove [dimOnce] cubeVertices = [dimTwice]"
  "visibleMax exampleGeom cameraAbove [dimTwice] cubeVertices = Fin 1"
proof -
  show m: "visibleMax exampleGeom cameraAbove [dimWall] cubeVertices = Fin (49 / 4096)"
    by (simp add: visibleMax_def scanStep_def floor_faces_cameraAbove dimWall_def wall_def
        std_max_def)
  have "normaliseBrightness exampleGeom cameraAbove [dimWall] cubeVertices
        = map (rescale (Fin (round64 (1 / (49 / 4096))))) [dimWall]"
    by (rule normalise_below_target [OF m]) simp_all
  also have "round64 (1 / (49 / 4096)) = 5882252574524729 / 70368744177664"
    using round64_dim_factor by simp
  also have "rescale (Fin (5882252574524729 / 70368744177664)) dimWall
    = dimWall\<lparr>screenColour :=
        Colour (Fin (round64 (49 / 4096 * (5882252574524729 / 70368744177664))))
               (Fin (round64 (1 / 128 * (5882252574524729 / 70368744177664))))
               (Fin (round64 (0 * (5882252574524729 / 70368744177664))))\<rparr>"
    by (rule rescale_fin) (simp_all add: dimWall_def wall_def)
  then have "map (rescale (Fin (5882252574524729 / 70368744177664))) [dimWall] = [dimOnce]"
    unfolding round64_dim_red round64_dim_green mult_zero_left round64_zero
    by (simp add: dimWall_def dimOnce_def)
  finally show "normaliseBrightness exampleGeom cameraAbove [dimWall] cubeVertices = [dimOnce]" .
  show m1: "visibleMax exampleGeom cameraAbove [dimOnce] cubeVertices = Fin (1 - 1 / 2 ^ 53)"
    by (simp add: visibleMax_def scanStep_def floor_faces_cameraAbove dimOnce_def wall_def
        std_max_def)
  have "normaliseBrightness exampleGeom cameraAbove [dimOnce] cubeVertices
        = map (rescale (Fin (round64 (1 / (1 - 1 / 2 ^ 53))))) [dimOnce]"
    by (rule normalise_below_target [OF m1]) simp_all
  also have "round64 (1 / (1 - 1 / 2 ^ 53)) = 1 + 1 / 2 ^ 52"
    by (rule round64_second_factor)
  also have "rescale (Fin (1 + 1 / 2 ^ 52)) dimOnce
    = dimOnce\<lparr>screenColour :=
        Colour (Fin (round64 ((1 - 1 / 2 ^ 53) * (1 + 1 / 2 ^ 52))))
               (Fin (round64 (5882252574524729 / 9007199254740992 * (1 + 1 / 2 ^ 52))))
               (Fin (round64 (0 * (1 + 1 / 2 ^ 52))))\<rparr>"
    by (rule rescale_fin) (simp_all add: dimOnce_def wall_def)
  then have "map (rescale (Fin (1 + 1 / 2 ^ 52))) [dimOnce] = [dimTwice]"
    unfolding round64_second_red round64_second_green mult_zero_left round64_zero
    by (simp add: dimOnce_def dimTwice_def)
  finally show "normaliseBrightness exampleGeom cameraAbove [dimOnce] cubeVertices = [dimTwice]" .
  show "visibleMax exampleGeom cameraAbove [dimTwice] cubeVertices = Fin 1"
    by (simp add: visibleMax_def scanStep_def floor_faces_cameraAbove dimTwice_def wall_def
        std_max_def)
qed

lemma example_doubles:
  "doubleColours [litWall, lamp]" "doubleColours [litWall]" "doubleColours [dimWall]"
  by (simp_all add: doubleColours_def isdouble_def litWall_def wall_def lamp_def dimWall_def
      round64_examples round64_zero)

lemma lit_scene:
  "visibleMax exampleGeom cameraAbove [litWall, lamp] cubeVertices = Fin (1 / 2)"
  "map (rescale (Fin (round64 (1 / (1 / 2))))) [litWall, lamp] = [brightWall, lamp]"
  "visibleMax exampleGeom cameraAbove [litWall] cubeVertices = Fin (1 / 2)"
  "map (rescale (Fin (round64 (1 / (1 / 2))))) [litWall] = [brightWall]"
  "visibleMax exampleGeom cameraAbove [brightWall] cubeVertices = Fin 1"
  using round64_examples round64_one
  by (simp_all add: visibleMax_def scanStep_def floor_faces_cameraAbove litWall_def wall_def
      lamp_def std_max_def rescale_def scaleC_fl_def fl_times_def brightWall_def)

text \<open>
  Claim C5, as amended. \<open>visibleMax\<close> is the running maximum, started at \<^verbatim>\<open>0.0\<close>, of the
  channels of the non-emitters that face the camera; it is a finite number at least
  zero, or \<open>+\<infinity>\<close>. When it is at or above the target \<open>1.0\<close>, the normaliser returns the
  scene unchanged. When it is a number \<open>a\<close> with \<open>0 < a < 1\<close>, the colour of every
  non-emitter is multiplied by the one factor \<^verbatim>\<open>1.0 / a\<close>, the quotient and every product
  rounded by the machine, and the maximum over the front-facing non-emitters becomes
  the rounded product of \<open>a\<close> and the rounded \<^verbatim>\<open>1.0 / a\<close>: that is \<open>1.0\<close> or the double
  next below it, \<open>1 - 1 / 2 ^ 53\<close>. When it is zero, the factor is \<^verbatim>\<open>1.0 / 0.0\<close>, \<open>+\<infinity>\<close>.
\<close>

theorem normaliser_scaling:
  assumes "geomIgnoresColour g" and "doubleColours qs"
  shows "(Fin 1 \<le> visibleMax g cam qs vs \<longrightarrow> normaliseBrightness g cam qs vs = qs) \<and>
         (\<forall>a. visibleMax g cam qs vs = Fin a \<and> 0 < a \<and> a < 1 \<longrightarrow>
            normaliseBrightness g cam qs vs = map (rescale (Fin (round64 (1 / a)))) qs \<and>
            visibleMax g cam (normaliseBrightness g cam qs vs) vs
              = Fin (round64 (a * round64 (1 / a))) \<and>
            (visibleMax g cam (normaliseBrightness g cam qs vs) vs = Fin 1 \<or>
             visibleMax g cam (normaliseBrightness g cam qs vs) vs = Fin (1 - 1 / 2 ^ 53))) \<and>
         (visibleMax g cam qs vs = Fin 0 \<longrightarrow>
            normaliseBrightness g cam qs vs = map (rescale PInf) qs) \<and>
         ((\<exists>a\<ge>0. visibleMax g cam qs vs = Fin a) \<or> visibleMax g cam qs vs = PInf)"
proof (intro conjI allI impI)
  assume "Fin 1 \<le> visibleMax g cam qs vs"
  then have "\<not> visibleMax g cam qs vs < Fin 1"
    by (simp add: not_below_target_iff)
  then show "normaliseBrightness g cam qs vs = qs"
    using assms(2) by (simp add: normalise_at_target rescale_one_all)
next
  fix a assume a: "visibleMax g cam qs vs = Fin a \<and> 0 < a \<and> a < 1"
  then show "normaliseBrightness g cam qs vs = map (rescale (Fin (round64 (1 / a)))) qs"
    by (simp add: normalise_below_target)
  from a show m: "visibleMax g cam (normaliseBrightness g cam qs vs) vs
      = Fin (round64 (a * round64 (1 / a)))"
    using visibleMax_after_below [OF assms(1)] by blast
  from a have "0 < a" by simp
  from recip_near_one [OF this]
  show "visibleMax g cam (normaliseBrightness g cam qs vs) vs = Fin 1 \<or>
        visibleMax g cam (normaliseBrightness g cam qs vs) vs = Fin (1 - 1 / 2 ^ 53)"
    unfolding m by auto
next
  assume "visibleMax g cam qs vs = Fin 0"
  then show "normaliseBrightness g cam qs vs = map (rescale PInf) qs"
    by (rule normalise_zero)
next
  show "(\<exists>a\<ge>0. visibleMax g cam qs vs = Fin a) \<or> visibleMax g cam qs vs = PInf"
    by (rule visibleMax_range)
qed

theorem normaliser_scaling_witness:
  "geomIgnoresColour exampleGeom \<and> doubleColours [litWall, lamp] \<and>
   visibleMax exampleGeom cameraAbove [litWall, lamp] cubeVertices = Fin (1 / 2) \<and>
   normaliseBrightness exampleGeom cameraAbove [litWall, lamp] cubeVertices = [brightWall, lamp] \<and>
   visibleMax exampleGeom cameraAbove
     (normaliseBrightness exampleGeom cameraAbove [litWall, lamp] cubeVertices) cubeVertices = Fin 1"
proof -
  note m = lit_scene(1)
  then have h: "visibleMax exampleGeom cameraAbove [litWall, lamp] cubeVertices = Fin (1 / 2)
      \<and> (0::real) < 1 / 2 \<and> (1::real) / 2 < 1"
    by simp
  note th = normaliser_scaling [OF exampleGeom_ignores_colour example_doubles(1),
      of cameraAbove cubeVertices, THEN conjunct2, THEN conjunct1, rule_format, OF h]
  from th [THEN conjunct1]
  have n: "normaliseBrightness exampleGeom cameraAbove [litWall, lamp] cubeVertices
      = [brightWall, lamp]"
    by (simp only: lit_scene(2))
  have r: "round64 (1 / 2 * round64 (1 / (1 / 2))) = 1"
    using round64_examples round64_one by simp
  from th [THEN conjunct2, THEN conjunct1]
  have "visibleMax exampleGeom cameraAbove
     (normaliseBrightness exampleGeom cameraAbove [litWall, lamp] cubeVertices) cubeVertices = Fin 1"
    unfolding r .
  with n m exampleGeom_ignores_colour example_doubles(1) show ?thesis by blast
qed

text \<open>
  The claim as stated fails on the dim floor, whose colour is \<open>(49/4096, 1/128, 0)\<close>:
  \<^verbatim>\<open>1.0 / max\<close> rounds to \<open>5882252574524729 / 2 ^ 46\<close>, the product of the maximum with it
  rounds to \<open>1 - 1 / 2 ^ 53\<close>, and the maximum after the pass is that number, not \<open>1.0\<close>.
  It fails also on a scene whose only visible non-emitter is black: the maximum \<open>0\<close> is
  below the target, every channel becomes \<^verbatim>\<open>0.0 * inf\<close>, NaN, and the maximum the scan
  finds afterwards is still \<open>0\<close>.
\<close>

theorem normalised_maximum_below_target:
  "doubleColours [dimWall] \<and>
   visibleMax exampleGeom cameraAbove [dimWall] cubeVertices = Fin (49 / 4096) \<and>
   normaliseBrightness exampleGeom cameraAbove [dimWall] cubeVertices = [dimOnce] \<and>
   visibleMax exampleGeom cameraAbove
     (normaliseBrightness exampleGeom cameraAbove [dimWall] cubeVertices) cubeVertices
     = Fin (1 - 1 / 2 ^ 53) \<and>
   visibleMax exampleGeom cameraAbove [wall] cubeVertices = Fin 0 \<and>
   normaliseBrightness exampleGeom cameraAbove [wall] cubeVertices
     = [wall\<lparr>screenColour := Colour NaN NaN NaN\<rparr>] \<and>
   visibleMax exampleGeom cameraAbove
     (normaliseBrightness exampleGeom cameraAbove [wall] cubeVertices) cubeVertices = Fin 0"
  by (simp only: dim_scene black_scene example_doubles simp_thms)

text \<open>
  Claim C6, as amended. Normalising twice gives the scene that normalising once gives
  exactly when the visible maximum after the first pass is at or above the target, or
  the visible maximum before it is zero (the channels, multiplied by \<open>+\<infinity>\<close>, then stay
  as they are). A visible maximum at or above the target stays there. A visible
  maximum \<open>a\<close> with \<open>0 < a < 1\<close> becomes \<open>1.0\<close>, or it becomes \<open>1 - 1 / 2 ^ 53\<close>, below the
  target, and the second pass makes it \<open>1.0\<close>. In every case normalising three times
  gives the scene that normalising twice gives.
\<close>

theorem normaliser_second_pass:
  assumes "geomIgnoresColour g"
  shows "(normaliseBrightness g cam (normaliseBrightness g cam qs vs) vs
            = normaliseBrightness g cam qs vs)
         = (Fin 1 \<le> visibleMax g cam (normaliseBrightness g cam qs vs) vs
            \<or> visibleMax g cam qs vs = Fin 0) \<and>
         (Fin 1 \<le> visibleMax g cam qs vs \<longrightarrow>
            Fin 1 \<le> visibleMax g cam (normaliseBrightness g cam qs vs) vs) \<and>
         (\<forall>a. visibleMax g cam qs vs = Fin a \<and> 0 < a \<and> a < 1 \<longrightarrow>
            visibleMax g cam (normaliseBrightness g cam qs vs) vs = Fin 1 \<or>
            visibleMax g cam (normaliseBrightness g cam qs vs) vs = Fin (1 - 1 / 2 ^ 53) \<and>
            visibleMax g cam
              (normaliseBrightness g cam (normaliseBrightness g cam qs vs) vs) vs = Fin 1) \<and>
         normaliseBrightness g cam
           (normaliseBrightness g cam (normaliseBrightness g cam qs vs) vs) vs
         = normaliseBrightness g cam (normaliseBrightness g cam qs vs) vs"
proof (intro conjI allI impI)
  show "(normaliseBrightness g cam (normaliseBrightness g cam qs vs) vs
            = normaliseBrightness g cam qs vs)
         = (Fin 1 \<le> visibleMax g cam (normaliseBrightness g cam qs vs) vs
            \<or> visibleMax g cam qs vs = Fin 0)"
    by (rule normalise_idem_iff [OF assms])
next
  assume "Fin 1 \<le> visibleMax g cam qs vs"
  then have "\<not> visibleMax g cam qs vs < Fin 1"
    by (simp add: not_below_target_iff)
  from visibleMax_after_at_target [OF assms this]
  show "Fin 1 \<le> visibleMax g cam (normaliseBrightness g cam qs vs) vs"
    by (simp add: not_below_target_iff)
next
  fix a assume "visibleMax g cam qs vs = Fin a \<and> 0 < a \<and> a < 1"
  then have a: "visibleMax g cam qs vs = Fin a" "0 < a" "a < 1" by simp_all
  note m = visibleMax_after_below [OF assms a]
  show "visibleMax g cam (normaliseBrightness g cam qs vs) vs = Fin 1 \<or>
        visibleMax g cam (normaliseBrightness g cam qs vs) vs = Fin (1 - 1 / 2 ^ 53) \<and>
        visibleMax g cam
          (normaliseBrightness g cam (normaliseBrightness g cam qs vs) vs) vs = Fin 1"
  proof (cases "round64 (a * round64 (1 / a)) < 1")
    case True
    with recip_near_one [OF a(2)] have "round64 (a * round64 (1 / a)) = 1 - 1 / 2 ^ 53"
      by simp
    with visibleMax_after_two [OF assms a True] m show ?thesis by simp
  next
    case False
    with recip_near_one [OF a(2)] have "round64 (a * round64 (1 / a)) = 1"
      by auto
    with m show ?thesis by simp
  qed
next
  show "normaliseBrightness g cam
           (normaliseBrightness g cam (normaliseBrightness g cam qs vs) vs) vs
         = normaliseBrightness g cam (normaliseBrightness g cam qs vs) vs"
    by (rule normalise_three [OF assms])
qed

theorem normaliser_second_pass_witness:
  "geomIgnoresColour exampleGeom \<and>
   visibleMax exampleGeom cameraAbove [litWall] cubeVertices = Fin (1 / 2) \<and>
   normaliseBrightness exampleGeom cameraAbove [litWall] cubeVertices = [brightWall] \<and>
   normaliseBrightness exampleGeom cameraAbove
     (normaliseBrightness exampleGeom cameraAbove [litWall] cubeVertices) cubeVertices
     = normaliseBrightness exampleGeom cameraAbove [litWall] cubeVertices \<and>
   visibleMax exampleGeom cameraAbove [dimWall] cubeVertices = Fin (49 / 4096) \<and>
   visibleMax exampleGeom cameraAbove
     (normaliseBrightness exampleGeom cameraAbove
        (normaliseBrightness exampleGeom cameraAbove [dimWall] cubeVertices) cubeVertices)
     cubeVertices = Fin 1"
proof -
  note lit = normaliser_second_pass [OF exampleGeom_ignores_colour, of cameraAbove "[litWall]"
      cubeVertices]
  note dim = normaliser_second_pass [OF exampleGeom_ignores_colour, of cameraAbove "[dimWall]"
      cubeVertices]
  have n: "normaliseBrightness exampleGeom cameraAbove [litWall] cubeVertices = [brightWall]"
    using normalise_below_target [OF lit_scene(3)] by (simp only: lit_scene(4))
  then have "Fin 1 \<le> visibleMax exampleGeom cameraAbove
      (normaliseBrightness exampleGeom cameraAbove [litWall] cubeVertices) cubeVertices"
    by (simp add: lit_scene(5))
  with lit [THEN conjunct1]
  have i: "normaliseBrightness exampleGeom cameraAbove
     (normaliseBrightness exampleGeom cameraAbove [litWall] cubeVertices) cubeVertices
     = normaliseBrightness exampleGeom cameraAbove [litWall] cubeVertices"
    by blast
  have h: "visibleMax exampleGeom cameraAbove [dimWall] cubeVertices = Fin (49 / 4096)
      \<and> (0::real) < 49 / 4096 \<and> (49::real) / 4096 < 1"
    by (simp add: dim_scene(1))
  have "visibleMax exampleGeom cameraAbove
      (normaliseBrightness exampleGeom cameraAbove [dimWall] cubeVertices) cubeVertices \<noteq> Fin 1"
    by (simp add: dim_scene)
  with dim [THEN conjunct2, THEN conjunct2, THEN conjunct1, rule_format, OF h]
  have "visibleMax exampleGeom cameraAbove
     (normaliseBrightness exampleGeom cameraAbove
        (normaliseBrightness exampleGeom cameraAbove [dimWall] cubeVertices) cubeVertices)
     cubeVertices = Fin 1"
    by blast
  with n i exampleGeom_ignores_colour lit_scene(3) dim_scene(1) show ?thesis by blast
qed

text \<open>
  The claim as stated fails on the dim floor: the first pass leaves its maximum at
  \<open>1 - 1 / 2 ^ 53\<close>, below the target, and the second pass multiplies every channel by
  \<open>1 + 1 / 2 ^ 52\<close>, which changes the red and the green channel.
\<close>

theorem normaliser_not_idempotent:
  "normaliseBrightness exampleGeom cameraAbove [dimWall] cubeVertices = [dimOnce] \<and>
   normaliseBrightness exampleGeom cameraAbove
     (normaliseBrightness exampleGeom cameraAbove [dimWall] cubeVertices) cubeVertices
     = [dimTwice] \<and>
   dimTwice \<noteq> dimOnce \<and>
   visibleMax exampleGeom cameraAbove
     (normaliseBrightness exampleGeom cameraAbove [dimWall] cubeVertices) cubeVertices < Fin 1"
proof -
  have "dimTwice \<noteq> dimOnce"
    by (simp add: dimTwice_def dimOnce_def wall_def)
  then show ?thesis
    by (simp add: dim_scene)
qed


subsection \<open>The specular pass\<close>

lemma fold_upd_cong:
  assumes f: "\<And>i ys. i < n \<Longrightarrow> length ys = n \<Longrightarrow> f i ys = ys[i := F i]"
    and len: "length xs = n" and m: "m \<le> n"
  shows "fold f [0..<m] xs = fold (\<lambda>i ys. ys[i := F i]) [0..<m] xs"
  using m
proof (induction m)
  case 0
  then show ?case by simp
next
  case (Suc m)
  then have ih: "fold f [0..<m] xs = fold (\<lambda>i ys. ys[i := F i]) [0..<m] xs"
    by simp
  have "length (fold (\<lambda>i ys. ys[i := F i]) [0..<m] xs) = n"
    using len by (simp add: length_fold_upd [where G = "\<lambda>i ys. F i"])
  with Suc.prems show ?case
    by (simp add: ih f)
qed

lemma fold_emitters_sum:
  fixes t :: "nat \<Rightarrow> 'a::comm_monoid_add"
  shows "fold (\<lambda>j acc. if i = j then acc else if E j then acc + t j else acc) [0..<n] a
         = a + (\<Sum>j\<in>{j \<in> {0..<n} - {i}. E j}. t j)"
proof -
  have "(\<lambda>j acc. if i = j then acc else if E j then acc + t j else acc)
        = (\<lambda>j acc. if i = j then acc else acc + (if E j then t j else 0))"
    by (intro ext) simp
  moreover have "(\<Sum>j\<in>{0..<n} - {i}. if E j then t j else 0)
                 = (\<Sum>j\<in>{j \<in> {0..<n} - {i}. E j}. t j)"
    by (rule sum.inter_filter [symmetric]) simp
  ultimately show ?thesis
    by (simp only: fold_skip_sum)
qed

lemma white_scaled:
  "scaleC (scaleC (Colour (Fin 1) (Fin 1) (Fin 1)) v) f = Colour (v * f) (v * f) (v * f)"
  by (simp add: scaleC_def one_times_double)

lemma computeSpecularity_eq:
  "computeSpecularity g pos qs vs =
     map2 (\<lambda>i q. q\<lparr>screenColour :=
              (if isSpecular (qs ! i) = False then screenColour (qs ! i)
               else screenColour (qs ! i)
                    + (\<Sum>j\<in>{j \<in> {0..<length qs} - {i}. isEmitter (qs ! j)}.
                         Colour (specularVal g pos qs vs i j * specularFactor)
                                (specularVal g pos qs vs i j * specularFactor)
                                (specularVal g pos qs vs i j * specularFactor)))\<rparr>)
       [0..<length qs] qs"
proof -
  let ?n = "length qs"
  let ?F = "\<lambda>i. (if isSpecular (qs ! i) = False then screenColour (qs ! i)
               else screenColour (qs ! i)
                    + (\<Sum>j\<in>{j \<in> {0..<length qs} - {i}. isEmitter (qs ! j)}.
                         Colour (specularVal g pos qs vs i j * specularFactor)
                                (specularVal g pos qs vs i j * specularFactor)
                                (specularVal g pos qs vs i j * specularFactor)))"
  let ?body = "\<lambda>i uc.
                    let uc1 = uc[i := screenColour (qs ! i)] in
                    if isSpecular (qs ! i) = False then uc1
                    else
                      let incoming =
                            fold (\<lambda>j incoming.
                                    if i = j then incoming
                                    else if isEmitter (qs ! j)
                                    then incoming
                                           + scaleC (scaleC (Colour (Fin 1) (Fin 1) (Fin 1)) (specularVal g pos qs vs i j))
                                               specularFactor
                                    else incoming)
                              [0..<?n] (Colour (Fin 0) (Fin 0) (Fin 0))
                      in uc1[i := uc1 ! i + incoming]"
  have body: "?body i ys = ys[i := ?F i]" if "i < ?n" "length ys = ?n" for i ys
    using that
    by (simp add: Let_def fold_emitters_sum white_scaled zero_Colour_def [symmetric])
  have uc: "fold ?body [0..<?n] (replicate ?n 0) = map ?F [0..<?n]"
    using fold_upd_cong [of ?n ?body ?F "replicate ?n 0" ?n, OF body]
    by (simp add: fold_upd_replicate)
  have "computeSpecularity g pos qs vs
        = fold (\<lambda>i qs'. qs'[i := (\<lambda>i q. q\<lparr>screenColour := map ?F [0..<?n] ! i\<rparr>) i (qs' ! i)])
            [0..<?n] qs"
    unfolding computeSpecularity_def Let_def uc [unfolded Let_def] ..
  also have "\<dots> = map2 (\<lambda>i q. q\<lparr>screenColour := map ?F [0..<?n] ! i\<rparr>) [0..<?n] qs"
    by (rule fold_upd_all)
  also have "\<dots> = map2 (\<lambda>i q. q\<lparr>screenColour := ?F i\<rparr>) [0..<?n] qs"
    by (rule nth_equalityI) simp_all
  finally show ?thesis .
qed


lemma length_computeSpecularity: "length (computeSpecularity g pos qs vs) = length qs"
  by (simp add: computeSpecularity_eq)

lemma computeSpecularity_nth:
  "i < length qs \<Longrightarrow>
   computeSpecularity g pos qs vs ! i =
     (if isSpecular (qs ! i)
      then (qs ! i)\<lparr>screenColour :=
             screenColour (qs ! i)
             + (\<Sum>j\<in>{j \<in> {0..<length qs} - {i}. isEmitter (qs ! j)}.
                  Colour (specularVal g pos qs vs i j * specularFactor)
                         (specularVal g pos qs vs i j * specularFactor)
                         (specularVal g pos qs vs i j * specularFactor))\<rparr>
      else qs ! i)"
  by (simp add: computeSpecularity_eq)

lemma geometry_mirrors:
  "paraCentre exampleGeom mirror cubeVertices = Vertex (Fin (1 / 2)) (Fin (1 / 2)) (Fin 0)"
  "paraCross exampleGeom mirror cubeVertices = Vertex (Fin 0) (Fin 0) (Fin (- 1))"
  "paraCentre exampleGeom glowingMirror cubeVertices = Vertex (Fin (1 / 2)) (Fin (1 / 2)) (Fin 0)"
  "paraCross exampleGeom glowingMirror cubeVertices = Vertex (Fin 0) (Fin 0) (Fin (- 1))"
  by (simp_all add: floor_geometry mirror_def glowingMirror_def)

lemma specularVal_mirror_lamp_above:
  "specularVal exampleGeom cameraAbove [mirror, lamp] cubeVertices 0 (Suc 0) = Fin 1"
  by (simp add: specularVal_def geometry_mirrors geometry_wall_lamp
      cameraAbove_def Let_def norm_v_def len_def dot_def scaleV_def minus_Vertex_def
      minus_double_def std_max_def specularPower_def)

lemma example_specular_pass:
  "computeSpecularity exampleGeom cameraAbove [mirror, lamp] cubeVertices ! 0
     = mirror\<lparr>screenColour := Colour (Fin (52 / 100)) (Fin (52 / 100)) (Fin (52 / 100))\<rparr>"
proof -
  have s0: "{j \<in> {0..<length [mirror, lamp]} - {0}. isEmitter ([mirror, lamp] ! j)} = {1}"
    by (auto simp: lamp_def less_Suc_eq)
  have sp: "isSpecular ([mirror, lamp] ! 0)"
    by (simp add: mirror_def)
  have "computeSpecularity exampleGeom cameraAbove [mirror, lamp] cubeVertices ! 0
        = mirror\<lparr>screenColour := screenColour mirror
            + Colour (Fin 1 * specularFactor) (Fin 1 * specularFactor) (Fin 1 * specularFactor)\<rparr>"
    using computeSpecularity_nth [of 0 "[mirror, lamp]" exampleGeom cameraAbove cubeVertices] sp
    unfolding s0 by (simp add: specularVal_mirror_lamp_above)
  then show ?thesis
    by (simp add: plus_Colour_def specularFactor_def mirror_def)
qed

lemma specularVal_self:
  "specularVal exampleGeom cameraAbove [glowingMirror] cubeVertices 0 0 = NaN"
  by (simp add: specularVal_def geometry_mirrors
      cameraAbove_def Let_def norm_v_def len_def dot_def scaleV_def minus_Vertex_def
      minus_double_def std_max_def specularPower_def)

lemma specularVal_camera_on_floor:
  "specularVal exampleGeom cameraOnFloor [mirror, lamp] cubeVertices 0 (Suc 0) = NaN"
  by (simp add: specularVal_def geometry_mirrors geometry_wall_lamp
      cameraOnFloor_def Let_def norm_v_def len_def dot_def scaleV_def minus_Vertex_def
      minus_double_def std_max_def specularPower_def)

text \<open>
  Claim C7, as amended. The specular pass keeps the number of elements and leaves every
  element that is not flagged \<open>isSpecular\<close> exactly as it was. To the \<open>screenColour\<close> of an
  element \<open>i\<close> flagged \<open>isSpecular\<close> it adds, for every emitter \<open>j\<close> other than \<open>i\<close> itself
  and for no other element, the white colour whose three channels are the specular
  value of \<open>i\<close> and \<open>j\<close>, \<^verbatim>\<open>pow(max(dot(reflected, view), 0), 32)\<close>, times the factor
  \<open>0.02\<close>. The sum is added to the colour of the element; its \<open>materialColour\<close> does not
  enter.
\<close>

theorem specular_pass_additive:
  "length (computeSpecularity g pos qs vs) = length qs \<and>
   (\<forall>i<length qs.
      computeSpecularity g pos qs vs ! i =
        (if isSpecular (qs ! i)
         then (qs ! i)\<lparr>screenColour :=
                screenColour (qs ! i)
                + (\<Sum>j\<in>{j \<in> {0..<length qs} - {i}. isEmitter (qs ! j)}.
                     Colour (specularVal g pos qs vs i j * specularFactor)
                            (specularVal g pos qs vs i j * specularFactor)
                            (specularVal g pos qs vs i j * specularFactor))\<rparr>
         else qs ! i))"
  using length_computeSpecularity computeSpecularity_nth by blast

theorem specular_pass_additive_witness:
  "computeSpecularity exampleGeom cameraAbove [mirror, lamp] cubeVertices
     = [mirror\<lparr>screenColour := Colour (Fin (52 / 100)) (Fin (52 / 100)) (Fin (52 / 100))\<rparr>,
        lamp]"
proof -
  note th = specular_pass_additive [of exampleGeom cameraAbove "[mirror, lamp]" cubeVertices,
      THEN conjunct2, rule_format]
  have s0: "{j \<in> {0..<length [mirror, lamp]} - {0}. isEmitter ([mirror, lamp] ! j)} = {1}"
    by (auto simp: lamp_def less_Suc_eq)
  have sp: "isSpecular ([mirror, lamp] ! 0)" "\<not> isSpecular ([mirror, lamp] ! 1)"
    by (simp_all add: mirror_def lamp_def)
  have "computeSpecularity exampleGeom cameraAbove [mirror, lamp] cubeVertices ! 0
        = mirror\<lparr>screenColour := screenColour mirror
            + Colour (Fin 1 * specularFactor) (Fin 1 * specularFactor) (Fin 1 * specularFactor)\<rparr>"
    using th [of 0] sp(1) unfolding s0 by (simp add: specularVal_mirror_lamp_above)
  then have 0: "computeSpecularity exampleGeom cameraAbove [mirror, lamp] cubeVertices ! 0
           = mirror\<lparr>screenColour := Colour (Fin (52 / 100)) (Fin (52 / 100)) (Fin (52 / 100))\<rparr>"
    by (simp add: plus_Colour_def specularFactor_def mirror_def)
  have 1: "computeSpecularity exampleGeom cameraAbove [mirror, lamp] cubeVertices ! 1 = lamp"
    using th [of 1] sp(2) by simp
  have "length (computeSpecularity exampleGeom cameraAbove [mirror, lamp] cubeVertices) = 2"
    by (simp add: length_computeSpecularity)
  then show ?thesis
    using 0 1 by (auto simp: list_eq_iff_nth_eq less_Suc_eq numeral_2_eq_2)
qed

text \<open>
  The claim as stated, a term for every emitter, fails on an element that is both
  specular and an emitter: the loop skips \<open>j = i\<close> and leaves the element unchanged,
  where the term of the element for itself would have made its colour NaN.
\<close>

theorem specular_emitter_skips_itself:
  "computeSpecularity exampleGeom cameraAbove [glowingMirror] cubeVertices = [glowingMirror] \<and>
   screenColour glowingMirror
     + scaleC (scaleC (Colour (Fin 1) (Fin 1) (Fin 1))
                 (specularVal exampleGeom cameraAbove [glowingMirror] cubeVertices 0 0))
         specularFactor
     = Colour NaN NaN NaN"
proof -
  have e: "{j \<in> {0..<length [glowingMirror]} - {0}. isEmitter ([glowingMirror] ! j)} = {}"
    by auto
  have "computeSpecularity exampleGeom cameraAbove [glowingMirror] cubeVertices ! 0 = glowingMirror"
    using computeSpecularity_nth [of 0 "[glowingMirror]" exampleGeom cameraAbove cubeVertices]
    unfolding e by simp
  moreover have "length (computeSpecularity exampleGeom cameraAbove [glowingMirror] cubeVertices) = 1"
    by (simp add: length_computeSpecularity)
  ultimately have "computeSpecularity exampleGeom cameraAbove [glowingMirror] cubeVertices
                   = [glowingMirror]"
    by (auto simp: list_eq_iff_nth_eq)
  moreover have "screenColour glowingMirror
     + scaleC (scaleC (Colour (Fin 1) (Fin 1) (Fin 1))
                 (specularVal exampleGeom cameraAbove [glowingMirror] cubeVertices 0 0))
         specularFactor
     = Colour NaN NaN NaN"
    unfolding specularVal_self by (simp add: scaleC_def plus_Colour_def glowingMirror_def)
  ultimately show ?thesis by simp
qed


lemma channels_sum:
  "cr (sum f S) = (\<Sum>j\<in>S. cr (f j))"
  "cg (sum f S) = (\<Sum>j\<in>S. cg (f j))"
  "cb (sum f S) = (\<Sum>j\<in>S. cb (f j))"
  by (induction S rule: infinite_finite_induct)
    (simp_all add: zero_Colour_def plus_Colour_def zero_double_def)

lemma plus_range:
  assumes "(\<exists>a\<ge>0. x = Fin a) \<or> x = PInf" and "(\<exists>a\<ge>0. y = Fin a) \<or> y = PInf"
  shows "(\<exists>a\<ge>0. x + y = Fin a) \<or> x + y = PInf"
  using assms by auto

lemma sum_range:
  assumes "\<forall>j\<in>S. (\<exists>a\<ge>0. f j = Fin a) \<or> f j = PInf"
  shows "(\<exists>a\<ge>0. sum f S = Fin a) \<or> sum f S = (PInf::double)"
  using assms
proof (induction S rule: infinite_finite_induct)
  case (insert x F)
  then show ?case
    by (simp add: plus_range)
qed (simp_all add: zero_double_def)

lemma specularVal_range:
  "specularVal g pos qs vs i j = NaN \<or>
   (\<exists>a\<ge>0. specularVal g pos qs vs i j = Fin a) \<or> specularVal g pos qs vs i j = PInf"
proof -
  have "std_pow (std_max x (Fin 0)) specularPower = NaN \<or>
        (\<exists>a\<ge>0. std_pow (std_max x (Fin 0)) specularPower = Fin a) \<or>
        std_pow (std_max x (Fin 0)) specularPower = PInf" for x
    by (cases x) (auto simp: std_max_def specularPower_def)
  then show ?thesis
    by (simp add: specularVal_def Let_def)
qed

lemma highlight_range:
  assumes "v \<noteq> NaN" and "v = NaN \<or> (\<exists>a\<ge>0. v = Fin a) \<or> v = PInf"
  shows "(\<exists>a\<ge>0. v * specularFactor = Fin a) \<or> v * specularFactor = PInf"
proof -
  from assms have "(\<exists>a\<ge>0. v = Fin a) \<or> v = PInf" by blast
  then show ?thesis
  proof
    assume "\<exists>a\<ge>0. v = Fin a"
    then obtain a where "0 \<le> a" "v = Fin a" by blast
    then have "v * specularFactor = Fin (a * 0.02)" "0 \<le> a * 0.02"
      by (simp_all add: specularFactor_def)
    then show ?thesis by blast
  next
    assume "v = PInf"
    then show ?thesis by (simp add: specularFactor_def)
  qed
qed

lemma finite_plus_range:
  assumes "isfinite b" and "(\<exists>a\<ge>0. x = Fin a) \<or> x = PInf"
  shows "b \<le> b + x"
  using assms by (cases b) auto

lemma finite_le_self: "isfinite b \<Longrightarrow> b \<le> b"
  by (cases b) simp_all

lemma norm_v_unit:
  assumes "finiteV w" and "w \<noteq> Vertex (Fin 0) (Fin 0) (Fin 0)"
  shows "\<exists>a b c. norm_v w = Vertex (Fin a) (Fin b) (Fin c) \<and> a * a + b * b + c * c = 1"
proof -
  obtain p q r where w: "w = Vertex (Fin p) (Fin q) (Fin r)"
    using assms(1) by (auto simp: finiteV_iff)
  let ?s = "p * p + q * q + r * r"
  have "p \<noteq> 0 \<or> q \<noteq> 0 \<or> r \<noteq> 0"
    using assms(2) w by auto
  then have "?s \<noteq> 0"
    by (auto simp: add_nonneg_eq_0_iff)
  moreover have "0 \<le> ?s" by simp
  ultimately have pos: "0 < ?s" by linarith
  then have s: "0 < sqrt ?s" "sqrt ?s * sqrt ?s = ?s"
    by simp_all
  have n: "norm_v w = Vertex (Fin (p * (1 / sqrt ?s))) (Fin (q * (1 / sqrt ?s))) (Fin (r * (1 / sqrt ?s)))"
    using pos by (simp add: w norm_v_def len_def dot_def scaleV_def)
  define k where "k = 1 / sqrt ?s"
  have kk: "k * k = 1 / ?s"
    using s(2) by (simp add: k_def)
  have "p * k * (p * k) + q * k * (q * k) + r * k * (r * k) = ?s * (k * k)"
    by (simp add: algebra_simps)
  also have "\<dots> = 1"
    using pos by (simp add: kk)
  finally show ?thesis
    using n unfolding k_def by blast
qed

lemma reflected_unit:
  fixes a b c l1 l2 l3 :: real
  assumes n: "a * a + b * b + c * c = 1" and l: "l1 * l1 + l2 * l2 + l3 * l3 = 1"
  defines "d \<equiv> 2 * (a * l1 + b * l2 + c * l3)"
  shows "(a * d - l1) * (a * d - l1) + (b * d - l2) * (b * d - l2) + (c * d - l3) * (c * d - l3) = 1"
proof -
  have "(a * d - l1) * (a * d - l1) + (b * d - l2) * (b * d - l2) + (c * d - l3) * (c * d - l3)
        = d * d * (a * a + b * b + c * c) - d * (2 * (a * l1 + b * l2 + c * l3))
          + (l1 * l1 + l2 * l2 + l3 * l3)"
    by (simp add: algebra_simps)
  also have "\<dots> = 1"
    by (simp add: n l d_def)
  finally show ?thesis .
qed

lemma specularVal_finite:
  assumes "nondegenerate g pos qs vs i j"
  shows "\<exists>t\<ge>0. specularVal g pos qs vs i j = Fin t"
proof -
  from assms have ci: "finiteV (paraCentre g (qs ! i) vs)"
    and cj: "finiteV (paraCentre g (qs ! j) vs)"
    and x: "finiteV (paraCross g (qs ! i) vs)" and p: "finiteV pos"
    and apart: "paraCentre g (qs ! i) vs \<noteq> paraCentre g (qs ! j) vs"
    and nz: "paraCross g (qs ! i) vs \<noteq> Vertex (Fin 0) (Fin 0) (Fin 0)"
    and cam: "pos \<noteq> paraCentre g (qs ! i) vs"
    by (simp_all add: nondegenerate_def)
  have d1: "paraCentre g (qs ! i) vs - paraCentre g (qs ! j) vs \<noteq> Vertex (Fin 0) (Fin 0) (Fin 0)"
    using ci cj apart by (auto simp: finiteV_iff minus_Vertex_def minus_double_def)
  have d2: "pos - paraCentre g (qs ! i) vs \<noteq> Vertex (Fin 0) (Fin 0) (Fin 0)"
    using ci p cam by (auto simp: finiteV_iff minus_Vertex_def minus_double_def)
  obtain l1 l2 l3 where l: "norm_v (paraCentre g (qs ! i) vs - paraCentre g (qs ! j) vs)
      = Vertex (Fin l1) (Fin l2) (Fin l3)" "l1 * l1 + l2 * l2 + l3 * l3 = 1"
    using norm_v_unit [OF finite_minus [OF ci cj] d1] by blast
  obtain a b c where n: "norm_v (paraCross g (qs ! i) vs) = Vertex (Fin a) (Fin b) (Fin c)"
      "a * a + b * b + c * c = 1"
    using norm_v_unit [OF x nz] by blast
  obtain v1 v2 v3 where v: "norm_v (pos - paraCentre g (qs ! i) vs) = Vertex (Fin v1) (Fin v2) (Fin v3)"
    using norm_v_unit [OF finite_minus [OF p ci] d2] by blast
  define r1 where "r1 = a * (2 * (a * l1 + b * l2 + c * l3)) - l1"
  define r2 where "r2 = b * (2 * (a * l1 + b * l2 + c * l3)) - l2"
  define r3 where "r3 = c * (2 * (a * l1 + b * l2 + c * l3)) - l3"
  have r: "r1 * r1 + r2 * r2 + r3 * r3 = 1"
    unfolding r1_def r2_def r3_def by (rule reflected_unit [OF n(2) l(2)])
  have w: "scaleV (Vertex (Fin a) (Fin b) (Fin c))
             (Fin 2 * dot (Vertex (Fin a) (Fin b) (Fin c)) (Vertex (Fin l1) (Fin l2) (Fin l3)))
           - Vertex (Fin l1) (Fin l2) (Fin l3) = Vertex (Fin r1) (Fin r2) (Fin r3)"
    by (simp add: r1_def r2_def r3_def dot_def scaleV_def minus_Vertex_def minus_double_def)
  have u: "norm_v (Vertex (Fin r1) (Fin r2) (Fin r3)) = Vertex (Fin r1) (Fin r2) (Fin r3)"
    by (simp add: norm_v_def len_def dot_def scaleV_def r)
  define t where "t = r1 * (- v1) + r2 * (- v2) + r3 * (- v3)"
  have "dot (Vertex (Fin r1) (Fin r2) (Fin r3))
          (scaleV (Vertex (Fin v1) (Fin v2) (Fin v3)) (Fin (- 1))) = Fin t"
    by (simp add: t_def dot_def scaleV_def)
  then have "specularVal g pos qs vs i j = std_pow (std_max (Fin t) (Fin 0)) specularPower"
    by (simp only: specularVal_def Let_def l(1) n(1) v w u)
  then have "specularVal g pos qs vs i j = Fin ((if t < 0 then 0 else t) ^ 32)"
    by (simp add: std_max_def specularPower_def)
  moreover have "0 \<le> (if t < 0 then 0 else t) ^ 32"
    by simp
  ultimately show ?thesis by blast
qed


text \<open>
  Claim C10, as amended. The specular pass does not decrease a colour channel of an
  element \<open>i\<close> whose three channels are finite before the pass and whose specular value
  is not NaN for any emitter \<open>j\<close> other than itself, as is the case when the geometry of
  \<open>i\<close>, \<open>j\<close> and the camera is non-degenerate: each channel after the pass is at least
  the channel before.
\<close>

theorem specular_pass_monotone:
  assumes "i < length qs"
    and "isfinite (cr (screenColour (qs ! i)))"
    and "isfinite (cg (screenColour (qs ! i)))"
    and "isfinite (cb (screenColour (qs ! i)))"
    and "\<forall>j<length qs. j \<noteq> i \<and> isEmitter (qs ! j) \<longrightarrow>
           nondegenerate g pos qs vs i j \<or> specularVal g pos qs vs i j \<noteq> NaN"
  shows "cr (screenColour (qs ! i)) \<le> cr (screenColour (computeSpecularity g pos qs vs ! i)) \<and>
         cg (screenColour (qs ! i)) \<le> cg (screenColour (computeSpecularity g pos qs vs ! i)) \<and>
         cb (screenColour (qs ! i)) \<le> cb (screenColour (computeSpecularity g pos qs vs ! i))"
proof (cases "isSpecular (qs ! i)")
  case False
  then show ?thesis
    using assms by (simp add: computeSpecularity_nth finite_le_self)
next
  case True
  let ?S = "{j \<in> {0..<length qs} - {i}. isEmitter (qs ! j)}"
  let ?h = "\<lambda>j. specularVal g pos qs vs i j * specularFactor"
  have "\<forall>j\<in>?S. (\<exists>a\<ge>0. ?h j = Fin a) \<or> ?h j = PInf"
  proof (intro ballI)
    fix j assume "j \<in> ?S"
    then have "j < length qs" "j \<noteq> i \<and> isEmitter (qs ! j)" by auto
    with assms(5)
    have "nondegenerate g pos qs vs i j \<or> specularVal g pos qs vs i j \<noteq> NaN" by blast
    then have "specularVal g pos qs vs i j \<noteq> NaN"
      using specularVal_finite [of g pos qs vs i j] by auto
    then show "(\<exists>a\<ge>0. ?h j = Fin a) \<or> ?h j = PInf"
      by (rule highlight_range [OF _ specularVal_range])
  qed
  then have r: "(\<exists>a\<ge>0. sum ?h ?S = Fin a) \<or> sum ?h ?S = PInf"
    by (rule sum_range)
  have "screenColour (computeSpecularity g pos qs vs ! i)
        = screenColour (qs ! i) + (\<Sum>j\<in>?S. Colour (?h j) (?h j) (?h j))"
    using True assms(1) by (simp add: computeSpecularity_nth)
  then show ?thesis
    using assms(2-4) r by (simp add: plus_Colour_def channels_sum finite_plus_range)
qed

theorem specular_pass_monotone_witness:
  "nondegenerate exampleGeom cameraAbove [mirror, lamp] cubeVertices 0 1 \<and>
   cr (screenColour ([mirror, lamp] ! 0))
     \<le> cr (screenColour (computeSpecularity exampleGeom cameraAbove [mirror, lamp] cubeVertices ! 0)) \<and>
   cr (screenColour (computeSpecularity exampleGeom cameraAbove [mirror, lamp] cubeVertices ! 0))
     = Fin (52 / 100)"
proof -
  have fin: "isfinite (cr (screenColour ([mirror, lamp] ! 0)))"
    "isfinite (cg (screenColour ([mirror, lamp] ! 0)))"
    "isfinite (cb (screenColour ([mirror, lamp] ! 0)))"
    by (simp_all add: mirror_def)
  have nd: "nondegenerate exampleGeom cameraAbove [mirror, lamp] cubeVertices 0 1"
    by (simp add: nondegenerate_def geometry_mirrors geometry_wall_lamp cameraAbove_def
        finiteV_def)
  then have nn: "\<forall>j<length [mirror, lamp]. j \<noteq> 0 \<and> isEmitter ([mirror, lamp] ! j) \<longrightarrow>
      nondegenerate exampleGeom cameraAbove [mirror, lamp] cubeVertices 0 j \<or>
      specularVal exampleGeom cameraAbove [mirror, lamp] cubeVertices 0 j \<noteq> NaN"
    by (simp add: less_Suc_eq)
  have i: "0 < length [mirror, lamp]" by simp
  have "cr (screenColour (computeSpecularity exampleGeom cameraAbove [mirror, lamp]
      cubeVertices ! 0)) = Fin (52 / 100)"
    by (simp add: example_specular_pass)
  with specular_pass_monotone [OF i fin nn, THEN conjunct1] nd show ?thesis
    by blast
qed

text \<open>
  The claim as stated fails when the camera stands at the centroid of the specular
  element: the view vector is the normalised zero vector, NaN, \<^verbatim>\<open>std::max(NaN, 0.0f)\<close> is
  NaN, and the colour of the element becomes NaN, which is not at least its old value.
\<close>

theorem specular_pass_nan:
  "screenColour (computeSpecularity exampleGeom cameraOnFloor [mirror, lamp] cubeVertices ! 0)
     = Colour NaN NaN NaN \<and>
   \<not> cr (screenColour ([mirror, lamp] ! 0))
       \<le> cr (screenColour (computeSpecularity exampleGeom cameraOnFloor [mirror, lamp] cubeVertices ! 0))"
proof -
  have s0: "{j \<in> {0..<length [mirror, lamp]} - {0}. isEmitter ([mirror, lamp] ! j)} = {1}"
    by (auto simp: lamp_def less_Suc_eq)
  have sp: "isSpecular ([mirror, lamp] ! 0)"
    by (simp add: mirror_def)
  have "computeSpecularity exampleGeom cameraOnFloor [mirror, lamp] cubeVertices ! 0
        = mirror\<lparr>screenColour := screenColour mirror
            + Colour (NaN * specularFactor) (NaN * specularFactor) (NaN * specularFactor)\<rparr>"
    using computeSpecularity_nth [of 0 "[mirror, lamp]" exampleGeom cameraOnFloor cubeVertices] sp
    unfolding s0 by (simp add: specularVal_camera_on_floor)
  then have "screenColour (computeSpecularity exampleGeom cameraOnFloor [mirror, lamp]
      cubeVertices ! 0) = Colour NaN NaN NaN"
    by (simp add: plus_Colour_def mirror_def)
  then show ?thesis by simp
qed


end
